theory Spec2Isabelle
  imports Complex_Main
begin

section \<open>Values: JSON on the wire, Go values in memory\<close>

text \<open>
  A frame read from the socket is a byte string. What \<open>encoding/json\<close> sees in it is a
  JSON text: an object is a sequence of members, in the order written and with
  duplicates, which matters for decoding into a struct. A number is the rational its
  literal denotes.
\<close>

datatype json =
    JNull
  | JBool bool
  | JNumber rat
  | JString string
  | JArray "json list"
  | JObject "(string \<times> json) list"

text \<open>
  What \<open>interface{}\<close> holds after decoding, and what a handler or \<open>Send\<close> is given:
  \<open>nil\<close>, \<open>bool\<close>, \<open>float64\<close>, \<open>string\<close>, \<open>[]interface{}\<close> and
  \<open>map[string]interface{}\<close>.
\<close>

datatype gval =
    GNil
  | GBool bool
  | GFloat rat
  | GString string
  | GSlice "gval list"
  | GMap "string \<Rightarrow> gval option"

text \<open>
  Decoding a member list into a Go map: the members are stored one after the other, so
  the last of two members with the same key stays.
\<close>

definition store_members :: "(string \<times> 'a) list \<Rightarrow> (string \<Rightarrow> 'a option)" where
  "store_members kvs = foldl (\<lambda>m kv. m(fst kv \<mapsto> snd kv)) Map.empty kvs"

text \<open>The value a member list gives a key: that of the last member with the key.\<close>

definition member_of :: "(string \<times> 'a) list \<Rightarrow> string \<Rightarrow> 'a option" where
  "member_of kvs k = map_of (rev kvs) k"

primrec to_go :: "json \<Rightarrow> gval" where
  "to_go JNull = GNil"
| "to_go (JBool b) = GBool b"
| "to_go (JNumber r) = GFloat r"
| "to_go (JString s) = GString s"
| "to_go (JArray xs) = GSlice (map to_go xs)"
| "to_go (JObject kvs) = GMap (store_members (map (map_prod id to_go) kvs))"

text \<open>The Go map that the members of an object are decoded into.\<close>

definition msgData_of :: "(string \<times> json) list \<Rightarrow> string \<Rightarrow> gval option" where
  "msgData_of kvs k = map_option to_go (member_of kvs k)"

text \<open>
  \<open>strconv.ParseFloat\<close> fails with a range error when the literal rounds to an
  infinity, that is from the midpoint between the largest \<open>float64\<close>,
  \<open>2^1024 - 2^971\<close>, and \<open>2^1024\<close> on. The decoder records that error and goes on, and
  \<open>Unmarshal\<close> returns it at the end.
\<close>

definition float64_ok :: "rat \<Rightarrow> bool" where
  "float64_ok r \<longleftrightarrow> \<bar>r\<bar> < 2 ^ 1024 - 2 ^ 970"

primrec numbers_ok :: "json \<Rightarrow> bool" where
  "numbers_ok JNull = True"
| "numbers_ok (JBool b) = True"
| "numbers_ok (JNumber r) = float64_ok r"
| "numbers_ok (JString s) = True"
| "numbers_ok (JArray xs) = list_all id (map numbers_ok xs)"
| "numbers_ok (JObject kvs) = list_all snd (map (map_prod id numbers_ok) kvs)"

section \<open>Decoding a frame\<close>

text \<open>
  \<open>json.Unmarshal\<close> returns an error for bytes that are not a JSON text (\<open>None\<close>
  below), and for a JSON text that does not fit the Go value it is decoded into.
\<close>

datatype json_error = SyntaxError | UnmarshalTypeError

text \<open>
  The envelope of \<open>listen\<close>:
  \<^verbatim>\<open>var eventData struct { Type string `json:"type"`; Data interface{} `json:"data"` }\<close>
\<close>

record eventData =
  Type :: string
  Data :: gval

text \<open>
  A member's key selects the field whose name it equals, or else equals when case is
  ignored. For the names \<open>type\<close> and \<open>data\<close> only the ASCII letters fold onto each
  other.
\<close>

definition lower :: "char \<Rightarrow> char" where
  "lower c =
     (case map_of (zip ''ABCDEFGHIJKLMNOPQRSTUVWXYZ'' ''abcdefghijklmnopqrstuvwxyz'') c of
        None \<Rightarrow> c
      | Some d \<Rightarrow> d)"

definition key_is :: "string \<Rightarrow> string \<Rightarrow> bool" where
  "key_is name k \<longleftrightarrow> map lower k = name"

text \<open>
  One member of the object, decoded into the struct. A string sets \<open>Type\<close>, \<open>null\<close>
  leaves it, anything else is a type error; \<open>Data\<close> takes any value. A key that names
  no field is skipped without being decoded. The first error is kept and decoding
  goes on.
\<close>

definition unmarshal_member ::
  "eventData \<times> json_error option \<Rightarrow> string \<times> json \<Rightarrow> eventData \<times> json_error option" where
  "unmarshal_member st kv =
     (let e = fst st; err = snd st; k = fst kv; v = snd kv in
      if key_is ''type'' k then
        (case v of
           JString s \<Rightarrow> (e\<lparr>Type := s\<rparr>, err)
         | JNull \<Rightarrow> (e, err)
         | _ \<Rightarrow> (e, (case err of None \<Rightarrow> Some UnmarshalTypeError | Some x \<Rightarrow> Some x)))
      else if key_is ''data'' k then
        (e\<lparr>Data := to_go v\<rparr>,
         (case err of
            None \<Rightarrow> if numbers_ok v then None else Some UnmarshalTypeError
          | Some x \<Rightarrow> Some x))
      else (e, err))"

definition unmarshal_eventData :: "json option \<Rightarrow> json_error + eventData" where
  "unmarshal_eventData message =
     (case message of
        None \<Rightarrow> Inl SyntaxError
      | Some JNull \<Rightarrow> Inr \<lparr>Type = [], Data = GNil\<rparr>
      | Some (JObject kvs) \<Rightarrow>
          (case foldl unmarshal_member (\<lparr>Type = [], Data = GNil\<rparr>, None) kvs of
             (e, None) \<Rightarrow> Inr e
           | (e, Some err) \<Rightarrow> Inl err)
      | Some _ \<Rightarrow> Inl UnmarshalTypeError)"

text \<open>
  The second decoding of a message frame:
  \<^verbatim>\<open>var msgData map[string]interface{}\<close>. Every member is decoded, keys are taken as
  written, and \<open>null\<close> leaves the map nil, which reads as the empty map.
\<close>

definition unmarshal_msgData :: "json option \<Rightarrow> json_error + (string \<Rightarrow> gval option)" where
  "unmarshal_msgData message =
     (case message of
        None \<Rightarrow> Inl SyntaxError
      | Some JNull \<Rightarrow> Inr Map.empty
      | Some (JObject kvs) \<Rightarrow>
          (if numbers_ok (JObject kvs) then Inr (store_members (map (map_prod id to_go) kvs))
           else Inl UnmarshalTypeError)
      | Some _ \<Rightarrow> Inl UnmarshalTypeError)"

section \<open>The connection manager\<close>

text \<open>
  The struct of \<open>websocket_client.go\<close>, without its mutex: every method body that runs
  under the lock is one step here. \<open>conn\<close> is the socket handle the dialer returned,
  \<open>None\<close> for the nil pointer. A handler is a Go closure; \<open>'h\<close> names it. A key the Go
  map does not hold reads as the nil slice.
\<close>

record 'h ClientWebSocketClient =
  apiKey :: string
  wsUrl :: string
  accessToken :: string
  conn :: "nat option"
  isConnected :: bool
  eventHandlers :: "string \<Rightarrow> 'h list option"
  autoReconnect :: bool
  reconnectInterval :: int
  maxReconnectAttempts :: int

definition NewClientWebSocketClient ::
  "string \<Rightarrow> string \<Rightarrow> bool \<Rightarrow> int \<Rightarrow> int \<Rightarrow> 'h ClientWebSocketClient" where
  "NewClientWebSocketClient key url auto interval maxAttempts =
     \<lparr>apiKey = key, wsUrl = url, accessToken = [], conn = None, isConnected = False,
      eventHandlers = Map.empty, autoReconnect = auto, reconnectInterval = interval,
      maxReconnectAttempts = maxAttempts\<rparr>"

text \<open>
  The errors a caller can get: the one \<open>Send\<close> makes with \<open>fmt.Errorf\<close>, and the
  errors of the dialer and of \<open>WriteJSON\<close>, which are returned as they come. A method
  call through a nil \<open>conn\<close> is a panic.
\<close>

datatype error =
    NotConnectedError
  | ConnectionError string
  | TransportError string

datatype ret = Success | Failure error | NilPointerPanic

text \<open>
  The socket library, as the code uses it: what \<open>Dial\<close> answers for a URL, and what
  \<open>WriteJSON\<close> answers for a handle and a value.
\<close>

record world =
  dial :: "string \<Rightarrow> string + nat"
  writeJSON :: "nat \<Rightarrow> gval \<Rightarrow> string option"

text \<open>
  What a call does besides changing the struct, in the order it does it: the calls into
  the socket library (a dial with what it returned), the goroutines started, the sleep
  and the log lines.
\<close>

datatype 'h effect =
    Dialed string "string + nat"
  | GoListen nat
  | Closed nat
  | WriteAttempt nat gval
  | Slept int
  | Logged string
  | GoHandler 'h gval

definition Connect ::
  "world \<Rightarrow> 'h ClientWebSocketClient \<Rightarrow> ret \<times> 'h ClientWebSocketClient \<times> 'h effect list" where
  "Connect w c =
     (if isConnected c then (Success, c, [])
      else
        (let url = wsUrl c @ ''/ws?token='' @ accessToken c in
         case dial w url of
           Inl err \<Rightarrow> (Failure (ConnectionError err), c, [Dialed url (Inl err)])
         | Inr k \<Rightarrow> (Success, c\<lparr>conn := Some k, isConnected := True\<rparr>, [Dialed url (Inr k), GoListen k])))"

definition Disconnect ::
  "'h ClientWebSocketClient \<Rightarrow> 'h ClientWebSocketClient \<times> 'h effect list" where
  "Disconnect c =
     (case conn c of
        None \<Rightarrow> (c, [])
      | Some k \<Rightarrow> (c\<lparr>isConnected := False\<rparr>, [Closed k]))"

definition Send ::
  "world \<Rightarrow> gval \<Rightarrow> 'h ClientWebSocketClient \<Rightarrow> ret \<times> 'h effect list" where
  "Send w data c =
     (if \<not> isConnected c then (Failure NotConnectedError, [])
      else
        (case conn c of
           None \<Rightarrow> (NilPointerPanic, [])
         | Some k \<Rightarrow>
             (case writeJSON w k data of
                None \<Rightarrow> (Success, [WriteAttempt k data])
              | Some err \<Rightarrow> (Failure (TransportError err), [WriteAttempt k data]))))"

definition handlers_for :: "'h ClientWebSocketClient \<Rightarrow> string \<Rightarrow> 'h list" where
  "handlers_for c event = (case eventHandlers c event of None \<Rightarrow> [] | Some hs \<Rightarrow> hs)"

definition On :: "string \<Rightarrow> 'h \<Rightarrow> 'h ClientWebSocketClient \<Rightarrow> 'h ClientWebSocketClient" where
  "On event callback c =
     c\<lparr>eventHandlers := (eventHandlers c)(event \<mapsto> handlers_for c event @ [callback])\<rparr>"

definition SetAccessToken :: "string \<Rightarrow> 'h ClientWebSocketClient \<Rightarrow> 'h ClientWebSocketClient" where
  "SetAccessToken token c = c\<lparr>accessToken := token\<rparr>"

definition IsConnectedStatus :: "'h ClientWebSocketClient \<Rightarrow> bool" where
  "IsConnectedStatus c = isConnected c"

definition Subscribe ::
  "world \<Rightarrow> gval \<Rightarrow> 'h ClientWebSocketClient \<Rightarrow> ret \<times> 'h effect list" where
  "Subscribe w subscription c =
     Send w (GMap [''type'' \<mapsto> GString ''subscribe'', ''data'' \<mapsto> subscription]) c"

text \<open>
  The pattern that \<open>Emit\<close> and every dispatching branch of \<open>listen\<close> share: read the
  handler list under the lock, then start one goroutine per handler, in list order.
\<close>

definition Emit :: "string \<Rightarrow> gval \<Rightarrow> 'h ClientWebSocketClient \<Rightarrow> 'h effect list" where
  "Emit event data c = map (\<lambda>handler. GoHandler handler data) (handlers_for c event)"

section \<open>The read loop\<close>

text \<open>
  One turn of the \<open>for\<close> loop after \<open>ReadMessage\<close> has returned a message, as
  \<open>websocket_client.go\<close> has it: decode the envelope, drop the frame when that fails,
  else start the handlers registered under the envelope's type with its data.
\<close>

definition listen_frame_ws :: "'h ClientWebSocketClient \<Rightarrow> json option \<Rightarrow> 'h effect list" where
  "listen_frame_ws c message =
     (case unmarshal_eventData message of
        Inl err \<Rightarrow> []
      | Inr e \<Rightarrow> Emit (Type e) (Data e) c)"

text \<open>
  The aliases of the second copy of the file, the one that follows the README text in
  \<open>README.md\<close>: \<open>transformedMsg\<close> starts as a copy of \<open>msgData\<close> and then gets
  \<open>senderId\<close>, \<open>conversationId\<close> and \<open>content\<close>, each when its source key is there.
\<close>

definition transformedMsg :: "(string \<Rightarrow> gval option) \<Rightarrow> (string \<Rightarrow> gval option)" where
  "transformedMsg msgData =
     (let t0 = msgData;
          t1 = (case msgData ''source'' of None \<Rightarrow> t0 | Some source \<Rightarrow> t0(''senderId'' \<mapsto> source));
          t2 = (case msgData ''conversationID'' of None \<Rightarrow> t1
                | Some convID \<Rightarrow> t1(''conversationId'' \<mapsto> convID));
          t3 = (case msgData ''message'' of None \<Rightarrow> t2 | Some msg \<Rightarrow> t2(''content'' \<mapsto> msg))
      in t3)"

text \<open>
  The same turn of the loop in that second copy, with its branches on the type in the
  order of the source.
\<close>

definition listen_frame_md :: "'h ClientWebSocketClient \<Rightarrow> json option \<Rightarrow> 'h effect list" where
  "listen_frame_md c message =
     (case unmarshal_eventData message of
        Inl err \<Rightarrow> []
      | Inr e \<Rightarrow>
          if Type e = ''message'' then
            (case unmarshal_msgData message of
               Inl err \<Rightarrow> []
             | Inr msgData \<Rightarrow>
                 (let t = transformedMsg msgData in
                  Emit ''message.create'' (GMap t) c @
                  (case t ''conversationId'' of
                     Some (GString convID) \<Rightarrow>
                       Emit (''conversation:'' @ convID @ '':message.create'') (GMap t) c
                   | _ \<Rightarrow> [])))
          else if Type e = ''event'' then Emit (Type e) (Data e) c
          else if Type e = ''subscribed'' then [Logged ''Subscribed to events'']
          else if Type e = ''pong'' then []
          else Emit (Type e) (Data e) c)"

text \<open>
  What \<open>ReadMessage\<close> returns, call after call, is the input of the loop. The loop ends
  at the first read error, which it logs; when the list is used up the loop is still
  blocked in \<open>ReadMessage\<close> (\<open>None\<close>).
\<close>

datatype read = ReadError string | Message "json option"

fun listen_loop ::
  "('h ClientWebSocketClient \<Rightarrow> json option \<Rightarrow> 'h effect list) \<Rightarrow>
   'h ClientWebSocketClient \<Rightarrow> read list \<Rightarrow> 'h effect list \<times> string option" where
  "listen_loop frame c [] = ([], None)"
| "listen_loop frame c (ReadError err # rs) = ([Logged (''ws read error: '' @ err)], Some err)"
| "listen_loop frame c (Message m # rs) =
     (case listen_loop frame c rs of (es, r) \<Rightarrow> (frame c m @ es, r))"

text \<open>
  \<open>listen\<close> with its deferred function: when the loop has returned, the state becomes
  disconnected and, with \<open>autoReconnect\<close>, the goroutine sleeps and calls \<open>Connect\<close>,
  whose result it drops.
\<close>

definition listen ::
  "('h ClientWebSocketClient \<Rightarrow> json option \<Rightarrow> 'h effect list) \<Rightarrow>
   world \<Rightarrow> 'h ClientWebSocketClient \<Rightarrow> read list \<Rightarrow> 'h ClientWebSocketClient \<times> 'h effect list" where
  "listen frame w c reads =
     (case listen_loop frame c reads of
        (es, None) \<Rightarrow> (c, es)
      | (es, Some err) \<Rightarrow>
          (let c1 = c\<lparr>isConnected := False\<rparr> in
           if autoReconnect c1 then
             (case Connect w c1 of
                (r, c2, es2) \<Rightarrow> (c2, es @ [Slept (reconnectInterval c1)] @ es2))
           else (c1, es)))"

definition listen_ws ::
  "world \<Rightarrow> 'h ClientWebSocketClient \<Rightarrow> read list \<Rightarrow> 'h ClientWebSocketClient \<times> 'h effect list" where
  "listen_ws = listen listen_frame_ws"

definition listen_md ::
  "world \<Rightarrow> 'h ClientWebSocketClient \<Rightarrow> read list \<Rightarrow> 'h ClientWebSocketClient \<times> 'h effect list" where
  "listen_md = listen listen_frame_md"

section \<open>Runs of calls\<close>


definition dials :: "'h effect list \<Rightarrow> (string \<times> (string + nat)) list" where
  "dials es = concat (map (\<lambda>e. case e of Dialed url r \<Rightarrow> [(url, r)] | _ \<Rightarrow> []) es)"


definition sleeps :: "'h effect list \<Rightarrow> int list" where
  "sleeps es = concat (map (\<lambda>e. case e of Slept d \<Rightarrow> [d] | _ \<Rightarrow> []) es)"

definition started :: "'h effect list \<Rightarrow> ('h \<times> gval) list" where
  "started es = concat (map (\<lambda>e. case e of GoHandler h d \<Rightarrow> [(h, d)] | _ \<Rightarrow> []) es)"

text \<open>
  The states a client can be in: it is made by \<open>NewClientWebSocketClient\<close>, and then
  changed by the methods and by the deferred function of \<open>listen\<close>, whose first step
  marks the client disconnected and whose last step is a \<open>Connect\<close>.
\<close>

inductive reachable :: "'h ClientWebSocketClient \<Rightarrow> bool" where
  new: "reachable (NewClientWebSocketClient key url auto interval maxAttempts)"
| connect: "reachable c \<Longrightarrow> Connect w c = (r, c', es) \<Longrightarrow> reachable c'"
| disconnect: "reachable c \<Longrightarrow> Disconnect c = (c', es) \<Longrightarrow> reachable c'"
| on: "reachable c \<Longrightarrow> reachable (On event callback c)"
| token: "reachable c \<Longrightarrow> reachable (SetAccessToken t c)"
| dropped: "reachable c \<Longrightarrow> reachable (c\<lparr>isConnected := False\<rparr>)"

text \<open>The same, as long as no \<open>Connect\<close> has succeeded.\<close>

inductive never_connected :: "'h ClientWebSocketClient \<Rightarrow> bool" where
  new: "never_connected (NewClientWebSocketClient key url auto interval maxAttempts)"
| connect_failed:
    "never_connected c \<Longrightarrow> Connect w c = (Failure err, c', es) \<Longrightarrow> never_connected c'"
| disconnect: "never_connected c \<Longrightarrow> Disconnect c = (c', es) \<Longrightarrow> never_connected c'"
| on: "never_connected c \<Longrightarrow> never_connected (On event callback c)"
| token: "never_connected c \<Longrightarrow> never_connected (SetAccessToken t c)"
| dropped: "never_connected c \<Longrightarrow> never_connected (c\<lparr>isConnected := False\<rparr>)"

text \<open>
  Every entry point of the client as one call, with what it returns, for statements
  about all of them at once.
\<close>

datatype 'h call =
    CallConnect
  | CallDisconnect
  | CallSend gval
  | CallOn string 'h
  | CallSetAccessToken string
  | CallIsConnectedStatus
  | CallSubscribe gval
  | CallEmit string gval
  | CallListenWs "read list"
  | CallListenMd "read list"

datatype result = Returned ret | ReturnedBool bool | ReturnedNothing

fun exec ::
  "world \<Rightarrow> 'h call \<Rightarrow> 'h ClientWebSocketClient \<Rightarrow>
   result \<times> 'h ClientWebSocketClient \<times> 'h effect list" where
  "exec w CallConnect c = (case Connect w c of (r, c', es) \<Rightarrow> (Returned r, c', es))"
| "exec w CallDisconnect c = (case Disconnect c of (c', es) \<Rightarrow> (ReturnedNothing, c', es))"
| "exec w (CallSend data) c = (case Send w data c of (r, es) \<Rightarrow> (Returned r, c, es))"
| "exec w (CallOn event callback) c = (ReturnedNothing, On event callback c, [])"
| "exec w (CallSetAccessToken t) c = (ReturnedNothing, SetAccessToken t c, [])"
| "exec w CallIsConnectedStatus c = (ReturnedBool (IsConnectedStatus c), c, [])"
| "exec w (CallSubscribe sub) c = (case Subscribe w sub c of (r, es) \<Rightarrow> (Returned r, c, es))"
| "exec w (CallEmit event data) c = (ReturnedNothing, c, Emit event data c)"
| "exec w (CallListenWs reads) c =
     (case listen_ws w c reads of (c', es) \<Rightarrow> (ReturnedNothing, c', es))"
| "exec w (CallListenMd reads) c =
     (case listen_md w c reads of (c', es) \<Rightarrow> (ReturnedNothing, c', es))"

text \<open>A run of calls, each with the answers the socket library gives at that time.\<close>

fun run ::
  "(world \<times> 'h call) list \<Rightarrow> 'h ClientWebSocketClient \<Rightarrow>
   'h ClientWebSocketClient \<times> 'h effect list" where
  "run [] c = (c, [])"
| "run (wc # rest) c =
     (case exec (fst wc) (snd wc) c of
        (r, c1, es1) \<Rightarrow> (case run rest c1 of (c2, es2) \<Rightarrow> (c2, es1 @ es2)))"






section \<open>Handler goroutines\<close>

text \<open>
  \<open>go handler(data)\<close> starts the handler in a goroutine of its own and goes on at once.
  The handler is the caller's code: its call returns, panics (with a panic that the
  handler does not recover itself), or never ends. Neither copy of \<open>listen\<close> defers
  a \<open>recover\<close> around the call, and in Go a panic that no deferred function of its
  goroutine recovers ends the whole program.

  A process is the read loop, with the reads still to come, and the handler goroutines
  started and not yet finished; or it has crashed. The scheduler picks the next step.
\<close>

datatype ending = Returns | Panics | Blocks

datatype 'h process = Running "read list" "('h \<times> gval) list" | Crashed

inductive step ::
  "('h \<Rightarrow> gval \<Rightarrow> ending) \<Rightarrow>
   ('h ClientWebSocketClient \<Rightarrow> json option \<Rightarrow> 'h effect list) \<Rightarrow>
   'h ClientWebSocketClient \<Rightarrow> 'h process \<Rightarrow> 'h process \<Rightarrow> bool"
  for ends :: "'h \<Rightarrow> gval \<Rightarrow> ending"
  and frame :: "'h ClientWebSocketClient \<Rightarrow> json option \<Rightarrow> 'h effect list"
  and c :: "'h ClientWebSocketClient" where
  read_frame:
    "step ends frame c (Running (Message m # rs) gs) (Running rs (gs @ started (frame c m)))"
| handler_returns:
    "ends h d = Returns \<Longrightarrow>
     step ends frame c (Running rs (gs1 @ (h, d) # gs2)) (Running rs (gs1 @ gs2))"
| handler_panics:
    "ends h d = Panics \<Longrightarrow>
     step ends frame c (Running rs (gs1 @ (h, d) # gs2)) Crashed"

section \<open>Concrete clients, worlds and frames\<close>

text \<open>A socket library that connects and writes, and one that refuses both.\<close>

definition world_up :: world where
  "world_up = \<lparr>dial = (\<lambda>url. Inr 7), writeJSON = (\<lambda>k data. None)\<rparr>"

definition world_down :: world where
  "world_down =
     \<lparr>dial = (\<lambda>url. Inl ''connection refused''), writeJSON = (\<lambda>k data. Some ''broken pipe'')\<rparr>"

text \<open>A new client with handlers \<open>1\<close> and \<open>2\<close>, and the same client once connected.\<close>

definition client_new :: "nat ClientWebSocketClient" where
  "client_new = NewClientWebSocketClient ''key'' ''ws://localhost:8090'' True 5000000000 10"

definition client_up :: "nat ClientWebSocketClient" where
  "client_up = client_new\<lparr>conn := Some 7, isConnected := True\<rparr>"

text \<open>Socket libraries whose dialer answers with another socket.\<close>

definition world_again :: world where
  "world_again = \<lparr>dial = (\<lambda>url. Inr 8), writeJSON = (\<lambda>k data. None)\<rparr>"


text \<open>
  Frames: \<^verbatim>\<open>{"type":"foo","data":{"x":1}}\<close>, the chat message of the specification,
  a chat message whose \<open>conversationID\<close> is a number, one that has a \<open>conversationId\<close>
  of its own and no \<open>conversationID\<close>, one that has a \<open>senderId\<close> of its own,
  \<^verbatim>\<open>{"data":1}\<close>, and the two heartbeat and confirmation frames.
\<close>

definition frame_foo :: json where
  "frame_foo = JObject [(''type'', JString ''foo''), (''data'', JObject [(''x'', JNumber 1)])]"

definition frame_chat :: json where
  "frame_chat =
     JObject [(''type'', JString ''message''), (''source'', JString ''u1''),
              (''conversationID'', JString ''c1''), (''message'', JString ''hi'')]"

definition frame_chat_number :: json where
  "frame_chat_number = JObject [(''type'', JString ''message''), (''conversationID'', JNumber 5)]"

definition frame_chat_own_id :: json where
  "frame_chat_own_id = JObject [(''type'', JString ''message''), (''conversationId'', JString ''c9'')]"

definition frame_chat_own_sender :: json where
  "frame_chat_own_sender =
     JObject [(''type'', JString ''message''), (''source'', JString ''u1''),
              (''senderId'', JString ''u2'')]"


definition frame_subscribed :: json where
  "frame_subscribed = JObject [(''type'', JString ''subscribed'')]"

definition frame_pong :: json where
  "frame_pong = JObject [(''type'', JString ''pong'')]"

text \<open>The transformed maps of the three other chat frames.\<close>

definition number_transformed :: "string \<Rightarrow> gval option" where
  "number_transformed =
     [''type'' \<mapsto> GString ''message'', ''conversationID'' \<mapsto> GFloat 5,
      ''conversationId'' \<mapsto> GFloat 5]"

definition own_id_transformed :: "string \<Rightarrow> gval option" where
  "own_id_transformed =
     [''type'' \<mapsto> GString ''message'', ''conversationId'' \<mapsto> GString ''c9'']"

definition own_sender_transformed :: "string \<Rightarrow> gval option" where
  "own_sender_transformed =
     [''type'' \<mapsto> GString ''message'', ''source'' \<mapsto> GString ''u1'',
      ''senderId'' \<mapsto> GString ''u1'']"

text \<open>Handlers of which the first panics, and handlers that all return.\<close>

definition first_panics :: "nat \<Rightarrow> gval \<Rightarrow> ending" where
  "first_panics h d = (if h = 1 then Panics else Returns)"

definition all_return :: "nat \<Rightarrow> gval \<Rightarrow> ending" where
  "all_return h d = Returns"

text \<open>
  What those frames decode to: the data of \<open>frame_foo\<close>, and the map and the
  transformed map of \<open>frame_chat\<close>.
\<close>

definition foo_data :: gval where
  "foo_data = GMap [''x'' \<mapsto> GFloat 1]"

definition chat_msgData :: "string \<Rightarrow> gval option" where
  "chat_msgData =
     [''type'' \<mapsto> GString ''message'', ''source'' \<mapsto> GString ''u1'',
      ''conversationID'' \<mapsto> GString ''c1'', ''message'' \<mapsto> GString ''hi'']"

definition chat_transformed :: "string \<Rightarrow> gval option" where
  "chat_transformed =
     chat_msgData(''senderId'' \<mapsto> GString ''u1'', ''conversationId'' \<mapsto> GString ''c1'',
                  ''content'' \<mapsto> GString ''hi'')"

section \<open>Facts about the concrete clients and frames\<close>

lemma Connect_client_new: "Connect world_up client_new =
    (Success, client_up, [Dialed ''ws://localhost:8090/ws?token='' (Inr 7), GoListen 7])"
  by (simp add: Connect_def world_up_def client_new_def client_up_def NewClientWebSocketClient_def)

lemma reachable_client_up: "reachable client_up"
  using reachable.connect [OF reachable.new Connect_client_new [unfolded client_new_def]] .

lemma never_connected_client_new: "never_connected client_new"
  unfolding client_new_def by (rule never_connected.new)

lemmas decode_defs =
  unmarshal_eventData_def unmarshal_member_def key_is_def lower_def float64_ok_def
  unmarshal_msgData_def store_members_def

lemma envelope_foo: "unmarshal_eventData (Some frame_foo) = Inr \<lparr>Type = ''foo'', Data = foo_data\<rparr>"
  by (simp add: frame_foo_def foo_data_def decode_defs)

lemma envelope_chat: "unmarshal_eventData (Some frame_chat) = Inr \<lparr>Type = ''message'', Data = GNil\<rparr>"
  by (simp add: frame_chat_def decode_defs)

lemma msgData_chat: "unmarshal_msgData (Some frame_chat) = Inr chat_msgData"
  by (simp add: frame_chat_def chat_msgData_def decode_defs)

lemma transformed_chat: "transformedMsg chat_msgData = chat_transformed"
  by (simp add: transformedMsg_def chat_msgData_def chat_transformed_def Let_def)

lemma chat_transformed_id: "chat_transformed ''conversationId'' = Some (GString ''c1'')"
  by (simp add: chat_transformed_def)

lemma handlers_client_new [simp]: "eventHandlers client_new event = None"
  by (simp add: client_new_def NewClientWebSocketClient_def)

lemma Emit_absent: "eventHandlers c event = None \<Longrightarrow> Emit event data c = []"
  by (simp add: Emit_def handlers_for_def)

lemma Emit_client_new [simp]: "Emit event data client_new = []"
  by (simp add: Emit_absent)

section \<open>Connecting\<close>








lemma dials_append: "dials (es1 @ es2) = dials es1 @ dials es2"
  by (simp add: dials_def)

lemma sleeps_append: "sleeps (es1 @ es2) = sleeps es1 @ sleeps es2"
  by (simp add: sleeps_def)

lemma dials_Emit: "dials (Emit event data c) = []"
  by (simp add: dials_def Emit_def)

lemma sleeps_Emit: "sleeps (Emit event data c) = []"
  by (simp add: sleeps_def Emit_def)

lemma dials_frame_ws: "dials (listen_frame_ws c msg) = []"
  by (simp add: listen_frame_ws_def dials_Emit split: sum.splits) (simp add: dials_def)

lemma sleeps_frame_ws: "sleeps (listen_frame_ws c msg) = []"
  by (simp add: listen_frame_ws_def sleeps_Emit split: sum.splits) (simp add: sleeps_def)

lemma dials_frame_md: "dials (listen_frame_md c msg) = []"
  by (auto simp: listen_frame_md_def dials_Emit dials_append Let_def
      split: sum.splits option.splits gval.splits)
    (simp_all add: dials_def)

lemma sleeps_frame_md: "sleeps (listen_frame_md c msg) = []"
  by (auto simp: listen_frame_md_def sleeps_Emit sleeps_append Let_def
      split: sum.splits option.splits gval.splits)
    (simp_all add: sleeps_def)


lemma sleeps_listen_loop:
  assumes "\<And>msg. sleeps (frame c msg) = []"
  shows "sleeps (fst (listen_loop frame c reads)) = []"
proof (induction reads)
  case Nil
  show ?case by (simp add: sleeps_def)
next
  case (Cons r rs)
  obtain es x where l: "listen_loop frame c rs = (es, x)"
    by (cases "listen_loop frame c rs") auto
  with Cons show ?case
    by (cases r) (simp_all add: sleeps_append assms, simp add: sleeps_def)
qed






















text \<open>
  Claim C8. When the client is disconnected and the dial of its URL fails, \<open>Connect\<close>
  returns that error as a connection error and leaves the client as it was: still
  disconnected, no handle stored, and no read loop started (the only effect is the
  failed dial).
\<close>

theorem Connect_dial_fails:
  assumes "\<not> isConnected c"
    and "dial w (wsUrl c @ ''/ws?token='' @ accessToken c) = Inl err"
  shows "Connect w c =
    (Failure (ConnectionError err), c, [Dialed (wsUrl c @ ''/ws?token='' @ accessToken c) (Inl err)])"
  using assms by (simp add: Connect_def)

theorem Connect_dial_fails_witness:
  "\<not> isConnected client_new
   \<and> dial world_down (wsUrl client_new @ ''/ws?token='' @ accessToken client_new) = Inl ''connection refused''
   \<and> Connect world_down client_new =
       (Failure (ConnectionError ''connection refused''), client_new,
        [Dialed ''ws://localhost:8090/ws?token='' (Inl ''connection refused'')])"
proof -
  have h1: "\<not> isConnected client_new"
    by (simp add: client_new_def NewClientWebSocketClient_def)
  have h2: "dial world_down (wsUrl client_new @ ''/ws?token='' @ accessToken client_new) = Inl ''connection refused''"
    by (simp add: world_down_def)
  have u: "wsUrl client_new @ ''/ws?token='' @ accessToken client_new = ''ws://localhost:8090/ws?token=''"
    by (simp add: client_new_def NewClientWebSocketClient_def)
  from Connect_dial_fails [OF h1 h2] h1 h2 u show ?thesis by simp
qed

section \<open>Sending\<close>

text \<open>A connected client has a handle, so \<open>Send\<close> never goes through a nil \<open>conn\<close>.\<close>

lemma reachable_conn: "reachable c \<Longrightarrow> isConnected c \<Longrightarrow> conn c \<noteq> None"
  by (induction rule: reachable.induct)
    (auto simp: NewClientWebSocketClient_def Connect_def Disconnect_def On_def SetAccessToken_def Let_def
      split: if_splits sum.splits option.splits)

lemma never_connected_down: "never_connected c \<Longrightarrow> \<not> isConnected c \<and> conn c = None"
  by (induction rule: never_connected.induct)
    (auto simp: NewClientWebSocketClient_def Connect_def Disconnect_def On_def SetAccessToken_def Let_def
      split: if_splits sum.splits option.splits)

lemma never_connected_reachable: "never_connected c \<Longrightarrow> reachable c"
  by (induction rule: never_connected.induct) (auto intro: reachable.intros)


text \<open>
  Claim C7. On a disconnected client, and so on one that has never connected, \<open>Send\<close>
  fails with the not-connected error and calls nothing. On a connected client it makes
  one \<open>WriteJSON\<close> call with the payload on the client's handle, and fails, with a
  transport error, exactly when that call does.
\<close>

theorem Send_results:
  assumes "reachable c"
  shows "(\<not> isConnected c \<longrightarrow> Send w data c = (Failure NotConnectedError, []))
    \<and> (isConnected c \<longrightarrow>
         (\<exists>k. conn c = Some k \<and>
              Send w data c =
                ((case writeJSON w k data of None \<Rightarrow> Success | Some err \<Rightarrow> Failure (TransportError err)),
                 [WriteAttempt k data])))
    \<and> (never_connected c \<longrightarrow> Send w data c = (Failure NotConnectedError, []))"
proof (intro conjI impI)
  assume "\<not> isConnected c"
  then show "Send w data c = (Failure NotConnectedError, [])" by (simp add: Send_def)
next
  assume con: "isConnected c"
  with assms obtain k where k: "conn c = Some k" using reachable_conn by fastforce
  with con have "Send w data c =
      ((case writeJSON w k data of None \<Rightarrow> Success | Some err \<Rightarrow> Failure (TransportError err)),
       [WriteAttempt k data])"
    by (simp add: Send_def split: option.splits)
  with k show "\<exists>k. conn c = Some k \<and> Send w data c =
      ((case writeJSON w k data of None \<Rightarrow> Success | Some err \<Rightarrow> Failure (TransportError err)),
       [WriteAttempt k data])" by blast
next
  assume "never_connected c"
  then have "\<not> isConnected c" using never_connected_down by blast
  then show "Send w data c = (Failure NotConnectedError, [])" by (simp add: Send_def)
qed

theorem Send_results_witness:
  "reachable client_up \<and> isConnected client_up
   \<and> Send world_up (GString ''hi'') client_up = (Success, [WriteAttempt 7 (GString ''hi'')])
   \<and> Send world_down (GString ''hi'') client_up =
       (Failure (TransportError ''broken pipe''), [WriteAttempt 7 (GString ''hi'')])
   \<and> reachable client_new \<and> never_connected client_new \<and> \<not> isConnected client_new
   \<and> Send world_up (GString ''hi'') client_new = (Failure NotConnectedError, [])"
proof -
  have r1: "reachable client_up" by (rule reachable_client_up)
  have r0: "reachable client_new" by (simp add: never_connected_reachable never_connected_client_new)
  have i1: "isConnected client_up" "conn client_up = Some 7" by (simp_all add: client_up_def)
  have i0: "\<not> isConnected client_new" by (simp add: client_new_def NewClientWebSocketClient_def)
  from Send_results [OF r1, of world_up "GString ''hi''"] i1
  have a: "Send world_up (GString ''hi'') client_up = (Success, [WriteAttempt 7 (GString ''hi'')])"
    by (simp add: world_up_def)
  from Send_results [OF r1, of world_down "GString ''hi''"] i1
  have b: "Send world_down (GString ''hi'') client_up =
       (Failure (TransportError ''broken pipe''), [WriteAttempt 7 (GString ''hi'')])"
    by (simp add: world_down_def)
  from Send_results [OF r0, of world_up "GString ''hi''"] never_connected_client_new
  have c: "Send world_up (GString ''hi'') client_new = (Failure NotConnectedError, [])"
    by simp
  from a b c r1 r0 i1 i0 never_connected_client_new show ?thesis by simp
qed

section \<open>The event registry\<close>

lemma handlers_for_On:
  "handlers_for (On event h c) event' =
     (if event' = event then handlers_for c event @ [h] else handlers_for c event')"
  by (simp add: On_def handlers_for_def)

lemma Emit_On:
  "Emit event' data (On event h c) =
     (if event' = event then Emit event data c @ [GoHandler h data] else Emit event' data c)"
  by (simp add: Emit_def handlers_for_On)


lemma conversation_key_differs [simp]:
  "''conversation:'' @ i @ '':message.create'' \<noteq> ''message.create''"
  by simp

lemma listen_frame_md_message:
  assumes "unmarshal_eventData m = Inr e" and "Type e = ''message''"
    and "unmarshal_msgData m = Inr msgData"
  shows "listen_frame_md c m =
     Emit ''message.create'' (GMap (transformedMsg msgData)) c @
     (case transformedMsg msgData ''conversationId'' of
        Some (GString convID) \<Rightarrow>
          Emit (''conversation:'' @ convID @ '':message.create'') (GMap (transformedMsg msgData)) c
      | _ \<Rightarrow> [])"
  using assms by (simp add: listen_frame_md_def Let_def)

lemma listen_frame_md_generic:
  assumes "unmarshal_eventData m = Inr e"
    and "Type e \<notin> {''message'', ''subscribed'', ''pong''}"
  shows "listen_frame_md c m = Emit (Type e) (Data e) c"
  using assms by (simp add: listen_frame_md_def)

lemma listen_frame_ws_generic:
  assumes "unmarshal_eventData m = Inr e"
  shows "listen_frame_ws c m = Emit (Type e) (Data e) c"
  using assms by (simp add: listen_frame_ws_def)

lemma Emit_On_On:
  "Emit event data (On event h2 (On event h1 c)) =
     Emit event data c @ [GoHandler h1 data, GoHandler h2 data]"
  by (simp add: Emit_On)

lemma Emit_On_On_other:
  "event' \<noteq> event \<Longrightarrow> Emit event' data (On event h2 (On event h1 c)) = Emit event' data c"
  by (simp add: Emit_On)

lemma md_message_create_order:
  assumes "unmarshal_eventData m = Inr e" and "Type e = ''message''"
    and "unmarshal_msgData m = Inr msgData"
  shows "listen_frame_md (On ''message.create'' h2 (On ''message.create'' h1 c)) m =
     Emit ''message.create'' (GMap (transformedMsg msgData)) c @
     [GoHandler h1 (GMap (transformedMsg msgData)), GoHandler h2 (GMap (transformedMsg msgData))] @
     (case transformedMsg msgData ''conversationId'' of
        Some (GString convID) \<Rightarrow>
          Emit (''conversation:'' @ convID @ '':message.create'') (GMap (transformedMsg msgData)) c
      | _ \<Rightarrow> [])"
  unfolding listen_frame_md_message [OF assms]
  by (simp add: Emit_On_On Emit_On_On_other split: option.splits gval.splits)

lemma md_conversation_order:
  assumes "unmarshal_eventData m = Inr e" and "Type e = ''message''"
    and "unmarshal_msgData m = Inr msgData"
    and "transformedMsg msgData ''conversationId'' = Some (GString convID)"
    and "event = ''conversation:'' @ convID @ '':message.create''"
  shows "listen_frame_md (On event h2 (On event h1 c)) m =
     Emit ''message.create'' (GMap (transformedMsg msgData)) c @
     Emit event (GMap (transformedMsg msgData)) c @
     [GoHandler h1 (GMap (transformedMsg msgData)), GoHandler h2 (GMap (transformedMsg msgData))]"
  unfolding listen_frame_md_message [OF assms(1-3)]
  using assms(4,5) by (simp add: Emit_On_On Emit_On_On_other)

text \<open>
  Claim C9. \<open>On\<close> appends the handler to the list of its event, which starts empty
  when the event has no list, and leaves every other event alone; nothing is removed or
  merged. After \<open>H1\<close> and \<open>H2\<close> are registered in that order for an event, one
  dispatch of the event starts the handlers registered before and then \<open>H1\<close> and
  \<open>H2\<close>, once each and in that order: by \<open>Emit\<close>; by a frame of that type in
  \<open>websocket_client.go\<close>; and in the copy in \<open>README.md\<close> by a frame of that type on
  the generic route, by a chat message for \<open>message.create\<close> (the handlers of the
  conversation key follow), and by a chat message for its conversation key (the
  handlers of \<open>message.create\<close> come first).
\<close>

theorem On_appends_in_order:
  "handlers_for (On event h c) event = handlers_for c event @ [h]
   \<and> (event' \<noteq> event \<longrightarrow> handlers_for (On event h c) event' = handlers_for c event')
   \<and> Emit event data (On event h2 (On event h1 c)) =
       Emit event data c @ [GoHandler h1 data, GoHandler h2 data]
   \<and> (eventHandlers c event = None \<longrightarrow>
       Emit event data (On event h2 (On event h1 c)) = [GoHandler h1 data, GoHandler h2 data])
   \<and> (unmarshal_eventData m = Inr e \<and> Type e = event \<longrightarrow>
       listen_frame_ws (On event h2 (On event h1 c)) m =
         listen_frame_ws c m @ [GoHandler h1 (Data e), GoHandler h2 (Data e)])
   \<and> (unmarshal_eventData m = Inr e \<and> Type e = event \<and>
        event \<notin> {''message'', ''subscribed'', ''pong''} \<longrightarrow>
       listen_frame_md (On event h2 (On event h1 c)) m =
         listen_frame_md c m @ [GoHandler h1 (Data e), GoHandler h2 (Data e)])
   \<and> (unmarshal_eventData m = Inr e \<and> Type e = ''message'' \<and> unmarshal_msgData m = Inr msgData \<longrightarrow>
       listen_frame_md (On ''message.create'' h2 (On ''message.create'' h1 c)) m =
         Emit ''message.create'' (GMap (transformedMsg msgData)) c @
         [GoHandler h1 (GMap (transformedMsg msgData)), GoHandler h2 (GMap (transformedMsg msgData))] @
         (case transformedMsg msgData ''conversationId'' of
            Some (GString convID) \<Rightarrow>
              Emit (''conversation:'' @ convID @ '':message.create'') (GMap (transformedMsg msgData)) c
          | _ \<Rightarrow> []))
   \<and> (unmarshal_eventData m = Inr e \<and> Type e = ''message'' \<and> unmarshal_msgData m = Inr msgData \<and>
        transformedMsg msgData ''conversationId'' = Some (GString convID) \<and>
        event = ''conversation:'' @ convID @ '':message.create'' \<longrightarrow>
       listen_frame_md (On event h2 (On event h1 c)) m =
         Emit ''message.create'' (GMap (transformedMsg msgData)) c @
         Emit event (GMap (transformedMsg msgData)) c @
         [GoHandler h1 (GMap (transformedMsg msgData)), GoHandler h2 (GMap (transformedMsg msgData))])"
proof (intro conjI impI)
  show "handlers_for (On event h c) event = handlers_for c event @ [h]"
    by (simp add: handlers_for_On)
  show "handlers_for (On event h c) event' = handlers_for c event'" if "event' \<noteq> event"
    using that by (simp add: handlers_for_On)
  show "Emit event data (On event h2 (On event h1 c)) =
       Emit event data c @ [GoHandler h1 data, GoHandler h2 data]"
    by (rule Emit_On_On)
  show "Emit event data (On event h2 (On event h1 c)) = [GoHandler h1 data, GoHandler h2 data]"
    if "eventHandlers c event = None"
    using that by (simp add: Emit_On_On Emit_absent)
  show "listen_frame_ws (On event h2 (On event h1 c)) m =
         listen_frame_ws c m @ [GoHandler h1 (Data e), GoHandler h2 (Data e)]"
    if "unmarshal_eventData m = Inr e \<and> Type e = event"
    using that by (simp add: listen_frame_ws_generic Emit_On_On)
  show "listen_frame_md (On event h2 (On event h1 c)) m =
         listen_frame_md c m @ [GoHandler h1 (Data e), GoHandler h2 (Data e)]"
    if "unmarshal_eventData m = Inr e \<and> Type e = event \<and>
        event \<notin> {''message'', ''subscribed'', ''pong''}"
    using that by (simp add: listen_frame_md_generic Emit_On_On)
  show "listen_frame_md (On ''message.create'' h2 (On ''message.create'' h1 c)) m =
         Emit ''message.create'' (GMap (transformedMsg msgData)) c @
         [GoHandler h1 (GMap (transformedMsg msgData)), GoHandler h2 (GMap (transformedMsg msgData))] @
         (case transformedMsg msgData ''conversationId'' of
            Some (GString convID) \<Rightarrow>
              Emit (''conversation:'' @ convID @ '':message.create'') (GMap (transformedMsg msgData)) c
          | _ \<Rightarrow> [])"
    if "unmarshal_eventData m = Inr e \<and> Type e = ''message'' \<and> unmarshal_msgData m = Inr msgData"
    using md_message_create_order [of m e msgData h2 h1 c] that by simp
  show "listen_frame_md (On event h2 (On event h1 c)) m =
         Emit ''message.create'' (GMap (transformedMsg msgData)) c @
         Emit event (GMap (transformedMsg msgData)) c @
         [GoHandler h1 (GMap (transformedMsg msgData)), GoHandler h2 (GMap (transformedMsg msgData))]"
    if "unmarshal_eventData m = Inr e \<and> Type e = ''message'' \<and> unmarshal_msgData m = Inr msgData \<and>
        transformedMsg msgData ''conversationId'' = Some (GString convID) \<and>
        event = ''conversation:'' @ convID @ '':message.create''"
    using md_conversation_order [of m e msgData convID event h2 h1 c] that by simp
qed


theorem On_appends_in_order_witness:
  "handlers_for (On ''foo'' 1 client_new) ''foo'' = [1]
   \<and> ''bar'' \<noteq> ''foo'' \<and> handlers_for (On ''foo'' 1 client_new) ''bar'' = []
   \<and> eventHandlers client_new ''foo'' = None
   \<and> Emit ''foo'' GNil (On ''foo'' 2 (On ''foo'' 1 client_new)) = [GoHandler 1 GNil, GoHandler 2 GNil]
   \<and> unmarshal_eventData (Some frame_foo) = Inr \<lparr>Type = ''foo'', Data = foo_data\<rparr>
   \<and> listen_frame_ws (On ''foo'' 2 (On ''foo'' 1 client_new)) (Some frame_foo) =
       [GoHandler 1 foo_data, GoHandler 2 foo_data]
   \<and> listen_frame_md (On ''foo'' 2 (On ''foo'' 1 client_new)) (Some frame_foo) =
       [GoHandler 1 foo_data, GoHandler 2 foo_data]
   \<and> unmarshal_eventData (Some frame_chat) = Inr \<lparr>Type = ''message'', Data = GNil\<rparr>
   \<and> unmarshal_msgData (Some frame_chat) = Inr chat_msgData
   \<and> transformedMsg chat_msgData ''conversationId'' = Some (GString ''c1'')
   \<and> listen_frame_md
         (On ''message.create'' 2 (On ''message.create'' 1
            (On ''conversation:c1:message.create'' 9 client_new))) (Some frame_chat) =
       [GoHandler 1 (GMap chat_transformed), GoHandler 2 (GMap chat_transformed),
        GoHandler 9 (GMap chat_transformed)]
   \<and> listen_frame_md
         (On ''conversation:c1:message.create'' 2 (On ''conversation:c1:message.create'' 1
            (On ''message.create'' 9 client_new))) (Some frame_chat) =
       [GoHandler 9 (GMap chat_transformed), GoHandler 1 (GMap chat_transformed),
        GoHandler 2 (GMap chat_transformed)]"
proof -
  let ?foo = "\<lparr>Type = ''foo'', Data = foo_data\<rparr>"
  let ?chat = "\<lparr>Type = ''message'', Data = GNil\<rparr>"
  have none: "eventHandlers client_new ''foo'' = None" by simp
  have ne: "''bar'' \<noteq> ''foo''" by simp
  have id: "transformedMsg chat_msgData ''conversationId'' = Some (GString ''c1'')"
    by (simp add: transformed_chat chat_transformed_id)
  note gen = On_appends_in_order
    [where event = "''foo''" and event' = "''bar''" and h = 1 and ?h1.0 = 1 and ?h2.0 = 2
       and c = client_new and data = GNil and m = "Some frame_foo" and e = ?foo
       and msgData = chat_msgData and convID = "''c1''"]
  note mc = On_appends_in_order
    [where event = "''conversation:c1:message.create''" and event' = "''bar''" and h = 1
       and ?h1.0 = 1 and ?h2.0 = 2 and c = "On ''conversation:c1:message.create'' 9 client_new"
       and data = GNil and m = "Some frame_chat" and e = ?chat
       and msgData = chat_msgData and convID = "''c1''"]
  note cv = On_appends_in_order
    [where event = "''conversation:c1:message.create''" and event' = "''bar''" and h = 1
       and ?h1.0 = 1 and ?h2.0 = 2 and c = "On ''message.create'' 9 client_new"
       and data = GNil and m = "Some frame_chat" and e = ?chat
       and msgData = chat_msgData and convID = "''c1''"]
  have a: "handlers_for (On ''foo'' 1 client_new) ''foo'' = [1]"
    using gen by (simp add: handlers_for_def)
  have b: "handlers_for (On ''foo'' 1 client_new) ''bar'' = []"
    using gen ne by (simp add: handlers_for_def)
  have c: "Emit ''foo'' GNil (On ''foo'' 2 (On ''foo'' 1 client_new)) = [GoHandler 1 GNil, GoHandler 2 GNil]"
    using gen none by blast
  have d: "listen_frame_ws (On ''foo'' 2 (On ''foo'' 1 client_new)) (Some frame_foo) =
       [GoHandler 1 foo_data, GoHandler 2 foo_data]"
    using gen envelope_foo by (simp add: listen_frame_ws_generic)
  have e: "listen_frame_md (On ''foo'' 2 (On ''foo'' 1 client_new)) (Some frame_foo) =
       [GoHandler 1 foo_data, GoHandler 2 foo_data]"
    using gen envelope_foo by (simp add: listen_frame_md_generic)
  have f: "listen_frame_md
         (On ''message.create'' 2 (On ''message.create'' 1
            (On ''conversation:c1:message.create'' 9 client_new))) (Some frame_chat) =
       [GoHandler 1 (GMap chat_transformed), GoHandler 2 (GMap chat_transformed),
        GoHandler 9 (GMap chat_transformed)]"
    using mc envelope_chat msgData_chat
    by (simp add: transformed_chat chat_transformed_id Emit_On)
  have g: "listen_frame_md
         (On ''conversation:c1:message.create'' 2 (On ''conversation:c1:message.create'' 1
            (On ''message.create'' 9 client_new))) (Some frame_chat) =
       [GoHandler 9 (GMap chat_transformed), GoHandler 1 (GMap chat_transformed),
        GoHandler 2 (GMap chat_transformed)]"
    using cv envelope_chat msgData_chat
    by (simp add: transformed_chat chat_transformed_id Emit_On)
  from a b c d e f g none ne id envelope_foo envelope_chat msgData_chat show ?thesis
    by simp
qed

section \<open>The maximum number of reconnect attempts\<close>


lemma Emit_max [simp]: "Emit event data (c\<lparr>maxReconnectAttempts := m\<rparr>) = Emit event data c"
  by (simp add: Emit_def handlers_for_def)

lemma listen_frame_ws_max [simp]:
  "listen_frame_ws (c\<lparr>maxReconnectAttempts := m\<rparr>) msg = listen_frame_ws c msg"
  by (simp add: listen_frame_ws_def split: sum.splits)

lemma listen_frame_md_max [simp]:
  "listen_frame_md (c\<lparr>maxReconnectAttempts := m\<rparr>) msg = listen_frame_md c msg"
  by (simp add: listen_frame_md_def Let_def split: sum.splits option.splits gval.splits)

lemma listen_loop_max:
  assumes "\<And>msg. frame (c\<lparr>maxReconnectAttempts := m\<rparr>) msg = frame c msg"
  shows "listen_loop frame (c\<lparr>maxReconnectAttempts := m\<rparr>) reads = listen_loop frame c reads"
proof (induction reads)
  case Nil
  show ?case by simp
next
  case (Cons r rs)
  then show ?case by (cases r) (simp_all add: assms)
qed

lemma Connect_max:
  "Connect w (c\<lparr>maxReconnectAttempts := m\<rparr>) =
     (case Connect w c of (r, c', es) \<Rightarrow> (r, c'\<lparr>maxReconnectAttempts := m\<rparr>, es))"
  by (simp add: Connect_def Let_def split: sum.splits)

lemma Disconnect_max:
  "Disconnect (c\<lparr>maxReconnectAttempts := m\<rparr>) =
     (case Disconnect c of (c', es) \<Rightarrow> (c'\<lparr>maxReconnectAttempts := m\<rparr>, es))"
  by (simp add: Disconnect_def split: option.splits)

lemma Send_max: "Send w data (c\<lparr>maxReconnectAttempts := m\<rparr>) = Send w data c"
  by (simp add: Send_def)

lemma listen_max:
  assumes "\<And>msg. frame (c\<lparr>maxReconnectAttempts := m\<rparr>) msg = frame c msg"
  shows "listen frame w (c\<lparr>maxReconnectAttempts := m\<rparr>) reads =
     (case listen frame w c reads of (c', es) \<Rightarrow> (c'\<lparr>maxReconnectAttempts := m\<rparr>, es))"
proof -
  have swap: "c\<lparr>maxReconnectAttempts := m, isConnected := False\<rparr> =
      c\<lparr>isConnected := False, maxReconnectAttempts := m\<rparr>" by simp
  show ?thesis
    unfolding listen_def listen_loop_max [of frame, OF assms]
    by (simp add: Let_def swap Connect_max split: prod.splits option.splits)
qed

lemma exec_max:
  "exec w call (c\<lparr>maxReconnectAttempts := m\<rparr>) =
     (case exec w call c of (r, c', es) \<Rightarrow> (r, c'\<lparr>maxReconnectAttempts := m\<rparr>, es))"
proof (cases call)
  case CallConnect
  then show ?thesis by (simp add: Connect_max split: prod.splits)
next
  case CallDisconnect
  then show ?thesis by (simp add: Disconnect_max split: prod.splits)
next
  case (CallSend d)
  then show ?thesis by (simp add: Send_max split: prod.splits)
next
  case (CallOn e h)
  then show ?thesis by (simp add: On_def handlers_for_def)
next
  case (CallSetAccessToken t)
  then show ?thesis by (simp add: SetAccessToken_def)
next
  case CallIsConnectedStatus
  then show ?thesis by (simp add: IsConnectedStatus_def)
next
  case (CallSubscribe d)
  then show ?thesis by (simp add: Subscribe_def Send_max split: prod.splits)
next
  case (CallEmit e d)
  then show ?thesis by simp
next
  case (CallListenWs rs)
  then show ?thesis by (simp add: listen_ws_def listen_max split: prod.splits)
next
  case (CallListenMd rs)
  then show ?thesis by (simp add: listen_md_def listen_max split: prod.splits)
qed

lemma run_max:
  "run steps (c\<lparr>maxReconnectAttempts := m\<rparr>) =
     (case run steps c of (c', es) \<Rightarrow> (c'\<lparr>maxReconnectAttempts := m\<rparr>, es))"
proof (induction steps arbitrary: c)
  case Nil
  show ?case by simp
next
  case (Cons wc steps)
  obtain r c1 es1 where e: "exec (fst wc) (snd wc) c = (r, c1, es1)"
    by (cases "exec (fst wc) (snd wc) c") auto
  obtain c2 es2 where r: "run steps c1 = (c2, es2)"
    by (cases "run steps c1") auto
  from e have "exec (fst wc) (snd wc) (c\<lparr>maxReconnectAttempts := m\<rparr>) =
      (r, c1\<lparr>maxReconnectAttempts := m\<rparr>, es1)"
    by (simp add: exec_max)
  with e r Cons.IH [of c1] show ?case by simp
qed

lemma listen_loop_drop:
  "listen_loop frame c (map Message ms @ ReadError err # rest) =
     (concat (map (frame c) ms) @ [Logged (''ws read error: '' @ err)], Some err)"
  by (induction ms) simp_all

lemma listen_drop:
  "snd (listen frame w c (map Message ms @ ReadError err # rest)) =
     concat (map (frame c) ms) @ [Logged (''ws read error: '' @ err)] @
     (if autoReconnect c
      then Slept (reconnectInterval c) # snd (snd (Connect w (c\<lparr>isConnected := False\<rparr>)))
      else [])"
  by (cases "Connect w (c\<lparr>isConnected := False\<rparr>)")
    (simp add: listen_def listen_loop_drop Let_def)

lemma dials_frames:
  assumes "\<And>msg. dials (frame c msg) = []"
  shows "dials (concat (map (frame c) ms)) = []"
  by (induction ms) (simp_all add: dials_append assms, simp add: dials_def)

lemma sleeps_frames:
  assumes "\<And>msg. sleeps (frame c msg) = []"
  shows "sleeps (concat (map (frame c) ms)) = []"
  by (induction ms) (simp_all add: sleeps_append assms, simp add: sleeps_def)

lemma dials_reconnect:
  "dials (snd (snd (Connect w (c\<lparr>isConnected := False\<rparr>)))) =
     [(wsUrl c @ ''/ws?token='' @ accessToken c, dial w (wsUrl c @ ''/ws?token='' @ accessToken c))]"
  by (simp add: Connect_def Let_def dials_def split: sum.splits)

lemma sleeps_reconnect: "sleeps (snd (snd (Connect w c))) = []"
  by (simp add: Connect_def Let_def sleeps_def split: sum.splits)

lemma listen_drop_reconnects:
  assumes d: "\<And>msg. dials (frame c msg) = []"
    and s: "\<And>msg. sleeps (frame c msg) = []"
  shows "dials (snd (listen frame w c (map Message ms @ ReadError err # rest))) =
           (if autoReconnect c
            then [(wsUrl c @ ''/ws?token='' @ accessToken c,
                   dial w (wsUrl c @ ''/ws?token='' @ accessToken c))]
            else [])
       \<and> sleeps (snd (listen frame w c (map Message ms @ ReadError err # rest))) =
           (if autoReconnect c then [reconnectInterval c] else [])"
proof -
  have l: "dials (Logged x # es) = dials es" "sleeps (Logged x # es) = sleeps es"
    for x and es :: "'a effect list"
    by (simp_all add: dials_def sleeps_def)
  have sl: "dials (Slept i # es) = dials es" "sleeps (Slept i # es) = i # sleeps es"
    for i and es :: "'a effect list"
    by (simp_all add: dials_def sleeps_def)
  have e: "dials ([] :: 'a effect list) = []" "sleeps ([] :: 'a effect list) = []"
    by (simp_all add: dials_def sleeps_def)
  show ?thesis
    unfolding listen_drop
    by (simp add: dials_append sleeps_append dials_frames [of frame, OF d]
        sleeps_frames [of frame, OF s] l sl e dials_reconnect sleeps_reconnect)
qed

text \<open>
  Claim C4. The maximum number of reconnect attempts is stored and never read. Two
  clients that differ in that field only are made by constructor calls that differ in
  that argument only; every call on them, the read loop of either copy with its
  reconnect included, and every run of calls returns the same, has the same effects
  and leaves them differing in that field only. When the read loop ends on a read
  error it logs the error and, with auto-reconnect, sleeps the reconnect interval once
  and calls \<open>Connect\<close> once, which dials once; without auto-reconnect it neither
  sleeps nor dials.
\<close>

theorem maxReconnectAttempts_never_read:
  "NewClientWebSocketClient key url auto interval m =
     (NewClientWebSocketClient key url auto interval m')\<lparr>maxReconnectAttempts := m\<rparr>
   \<and> exec w call (c\<lparr>maxReconnectAttempts := m\<rparr>) =
       (case exec w call c of (r, c', es) \<Rightarrow> (r, c'\<lparr>maxReconnectAttempts := m\<rparr>, es))
   \<and> run steps (c\<lparr>maxReconnectAttempts := m\<rparr>) =
       (case run steps c of (c', es) \<Rightarrow> (c'\<lparr>maxReconnectAttempts := m\<rparr>, es))
   \<and> snd (listen_ws w c (map Message ms @ ReadError err # rest)) =
       concat (map (listen_frame_ws c) ms) @ [Logged (''ws read error: '' @ err)] @
       (if autoReconnect c
        then Slept (reconnectInterval c) # snd (snd (Connect w (c\<lparr>isConnected := False\<rparr>)))
        else [])
   \<and> snd (listen_md w c (map Message ms @ ReadError err # rest)) =
       concat (map (listen_frame_md c) ms) @ [Logged (''ws read error: '' @ err)] @
       (if autoReconnect c
        then Slept (reconnectInterval c) # snd (snd (Connect w (c\<lparr>isConnected := False\<rparr>)))
        else [])
   \<and> dials (snd (listen_ws w c (map Message ms @ ReadError err # rest))) =
       (if autoReconnect c
        then [(wsUrl c @ ''/ws?token='' @ accessToken c,
               dial w (wsUrl c @ ''/ws?token='' @ accessToken c))]
        else [])
   \<and> sleeps (snd (listen_ws w c (map Message ms @ ReadError err # rest))) =
       (if autoReconnect c then [reconnectInterval c] else [])
   \<and> dials (snd (listen_md w c (map Message ms @ ReadError err # rest))) =
       (if autoReconnect c
        then [(wsUrl c @ ''/ws?token='' @ accessToken c,
               dial w (wsUrl c @ ''/ws?token='' @ accessToken c))]
        else [])
   \<and> sleeps (snd (listen_md w c (map Message ms @ ReadError err # rest))) =
       (if autoReconnect c then [reconnectInterval c] else [])"
proof (intro conjI)
  show "NewClientWebSocketClient key url auto interval m =
     (NewClientWebSocketClient key url auto interval m')\<lparr>maxReconnectAttempts := m\<rparr>"
    by (simp add: NewClientWebSocketClient_def)
  show "exec w call (c\<lparr>maxReconnectAttempts := m\<rparr>) =
       (case exec w call c of (r, c', es) \<Rightarrow> (r, c'\<lparr>maxReconnectAttempts := m\<rparr>, es))"
    by (rule exec_max)
  show "run steps (c\<lparr>maxReconnectAttempts := m\<rparr>) =
       (case run steps c of (c', es) \<Rightarrow> (c'\<lparr>maxReconnectAttempts := m\<rparr>, es))"
    by (rule run_max)
  show "snd (listen_ws w c (map Message ms @ ReadError err # rest)) =
       concat (map (listen_frame_ws c) ms) @ [Logged (''ws read error: '' @ err)] @
       (if autoReconnect c
        then Slept (reconnectInterval c) # snd (snd (Connect w (c\<lparr>isConnected := False\<rparr>)))
        else [])"
    unfolding listen_ws_def by (rule listen_drop)
  show "snd (listen_md w c (map Message ms @ ReadError err # rest)) =
       concat (map (listen_frame_md c) ms) @ [Logged (''ws read error: '' @ err)] @
       (if autoReconnect c
        then Slept (reconnectInterval c) # snd (snd (Connect w (c\<lparr>isConnected := False\<rparr>)))
        else [])"
    unfolding listen_md_def by (rule listen_drop)
  show "dials (snd (listen_ws w c (map Message ms @ ReadError err # rest))) =
       (if autoReconnect c
        then [(wsUrl c @ ''/ws?token='' @ accessToken c,
               dial w (wsUrl c @ ''/ws?token='' @ accessToken c))]
        else [])"
    unfolding listen_ws_def
    using listen_drop_reconnects [of listen_frame_ws c, OF dials_frame_ws sleeps_frame_ws] by blast
  show "sleeps (snd (listen_ws w c (map Message ms @ ReadError err # rest))) =
       (if autoReconnect c then [reconnectInterval c] else [])"
    unfolding listen_ws_def
    using listen_drop_reconnects [of listen_frame_ws c, OF dials_frame_ws sleeps_frame_ws] by blast
  show "dials (snd (listen_md w c (map Message ms @ ReadError err # rest))) =
       (if autoReconnect c
        then [(wsUrl c @ ''/ws?token='' @ accessToken c,
               dial w (wsUrl c @ ''/ws?token='' @ accessToken c))]
        else [])"
    unfolding listen_md_def
    using listen_drop_reconnects [of listen_frame_md c, OF dials_frame_md sleeps_frame_md] by blast
  show "sleeps (snd (listen_md w c (map Message ms @ ReadError err # rest))) =
       (if autoReconnect c then [reconnectInterval c] else [])"
    unfolding listen_md_def
    using listen_drop_reconnects [of listen_frame_md c, OF dials_frame_md sleeps_frame_md] by blast
qed

theorem maxReconnectAttempts_never_read_witness:
  "autoReconnect client_up
   \<and> maxReconnectAttempts client_up = 10
   \<and> run [(world_again, CallListenWs [ReadError ''eof''])] client_up =
       (client_up\<lparr>conn := Some 8\<rparr>,
        [Logged ''ws read error: eof'', Slept 5000000000,
         Dialed ''ws://localhost:8090/ws?token='' (Inr 8), GoListen 8])
   \<and> run [(world_again, CallListenWs [ReadError ''eof''])] (client_up\<lparr>maxReconnectAttempts := 0\<rparr>) =
       (client_up\<lparr>conn := Some 8, maxReconnectAttempts := 0\<rparr>,
        [Logged ''ws read error: eof'', Slept 5000000000,
         Dialed ''ws://localhost:8090/ws?token='' (Inr 8), GoListen 8])
   \<and> length (dials (snd (run [(world_again, CallListenWs [ReadError ''eof'']),
                               (world_up, CallListenMd [ReadError ''eof'']),
                               (world_again, CallListenWs [ReadError ''eof''])]
                              (client_up\<lparr>maxReconnectAttempts := 1\<rparr>)))) = 3
   \<and> dials (snd (listen_md world_down (client_up\<lparr>maxReconnectAttempts := 0\<rparr>)
                  [Message (Some frame_foo), ReadError ''eof''])) =
       [(''ws://localhost:8090/ws?token='', Inl ''connection refused'')]
   \<and> sleeps (snd (listen_md world_down (client_up\<lparr>maxReconnectAttempts := 0\<rparr>)
                   [Message (Some frame_foo), ReadError ''eof''])) = [5000000000]"
proof -
  have auto: "autoReconnect client_up" "maxReconnectAttempts client_up = 10"
    by (simp_all add: client_up_def client_new_def NewClientWebSocketClient_def)
  have r: "run [(world_again, CallListenWs [ReadError ''eof''])] client_up =
       (client_up\<lparr>conn := Some 8\<rparr>,
        [Logged ''ws read error: eof'', Slept 5000000000,
         Dialed ''ws://localhost:8090/ws?token='' (Inr 8), GoListen 8])"
    by (simp add: client_up_def client_new_def NewClientWebSocketClient_def world_again_def
        listen_ws_def listen_def Connect_def Let_def)
  note t = maxReconnectAttempts_never_read
    [where c = "client_up" and m = 0 and w = world_down
       and steps = "[(world_again, CallListenWs [ReadError ''eof''])]"
       and ms = "[Some frame_foo]" and err = "''eof''" and rest = "[]"
       and key = "''key''" and url = "''ws://localhost:8090''" and auto = True
       and interval = 5000000000 and m' = 10 and call = CallConnect]
  note t0 = maxReconnectAttempts_never_read
    [where c = "client_up\<lparr>maxReconnectAttempts := 0\<rparr>" and m = 0 and w = world_down
       and ms = "[Some frame_foo]" and err = "''eof''" and rest = "[]"
       and key = "''key''" and url = "''ws://localhost:8090''" and auto = True
       and interval = 5000000000 and m' = 10 and call = CallConnect
       and steps = "[]"]
  have a: "run [(world_again, CallListenWs [ReadError ''eof''])] (client_up\<lparr>maxReconnectAttempts := 0\<rparr>) =
       (client_up\<lparr>conn := Some 8, maxReconnectAttempts := 0\<rparr>,
        [Logged ''ws read error: eof'', Slept 5000000000,
         Dialed ''ws://localhost:8090/ws?token='' (Inr 8), GoListen 8])"
    using t [THEN conjunct2, THEN conjunct2, THEN conjunct1] r by simp
  let ?three = "[(world_again, CallListenWs [ReadError ''eof'']),
                 (world_up, CallListenMd [ReadError ''eof'']),
                 (world_again, CallListenWs [ReadError ''eof''])] :: (world \<times> nat call) list"
  have three: "length (dials (snd (run ?three client_up))) = 3"
    by (simp add: client_up_def client_new_def NewClientWebSocketClient_def world_again_def
        world_up_def listen_ws_def listen_md_def listen_def Connect_def Let_def dials_def)
  note t3 = maxReconnectAttempts_never_read
    [where c = "client_up" and m = 1 and w = world_down and steps = ?three
       and ms = "[]" and err = "''eof''" and rest = "[]"
       and key = "''key''" and url = "''ws://localhost:8090''" and auto = True
       and interval = 5000000000 and m' = 10 and call = CallConnect]
  have a3: "length (dials (snd (run ?three (client_up\<lparr>maxReconnectAttempts := 1\<rparr>)))) = 3"
    using t3 [THEN conjunct2, THEN conjunct2, THEN conjunct1] three
    by (cases "run ?three client_up") simp
  have u: "wsUrl client_up = ''ws://localhost:8090''" "accessToken client_up = []"
    "reconnectInterval client_up = 5000000000"
    by (simp_all add: client_up_def client_new_def NewClientWebSocketClient_def)
  have dd: "dial world_down x = Inl ''connection refused''" for x
    by (simp add: world_down_def)
  have b: "dials (snd (listen_md world_down (client_up\<lparr>maxReconnectAttempts := 0\<rparr>)
                  [Message (Some frame_foo), ReadError ''eof''])) =
       [(''ws://localhost:8090/ws?token='', Inl ''connection refused'')]"
    using t0 [THEN conjunct2, THEN conjunct2, THEN conjunct2, THEN conjunct2, THEN conjunct2, THEN conjunct2, THEN conjunct2, THEN conjunct1] auto u dd by simp
  have c: "sleeps (snd (listen_md world_down (client_up\<lparr>maxReconnectAttempts := 0\<rparr>)
                   [Message (Some frame_foo), ReadError ''eof''])) = [5000000000]"
    using t0 [THEN conjunct2, THEN conjunct2, THEN conjunct2, THEN conjunct2, THEN conjunct2, THEN conjunct2, THEN conjunct2, THEN conjunct2] auto u by simp
  from auto r a a3 b c show ?thesis by simp
qed

section \<open>Routing a frame\<close>

subsection \<open>What the two decodings give\<close>

lemma store_members_fold:
  "foldl (\<lambda>m kv. m(fst kv \<mapsto> snd kv)) m0 kvs = m0 ++ map_of (rev kvs)"
proof (induction kvs arbitrary: m0)
  case Nil
  show ?case by simp
next
  case (Cons kv kvs)
  let ?F = "\<lambda>m kv. m(fst kv \<mapsto> snd kv)"
  have a: "foldl ?F (?F m0 kv) kvs = ?F m0 kv ++ map_of (rev kvs)"
    by (rule Cons.IH)
  have b: "?F m0 kv ++ map_of (rev kvs) = m0 ++ map_of (rev (kv # kvs))"
    by (cases kv) (auto simp: fun_eq_iff map_add_def split: option.splits)
  show ?case
    unfolding foldl_Cons a b ..
qed

lemma store_members_member_of: "store_members kvs = member_of kvs"
  by (simp add: store_members_def member_of_def store_members_fold fun_eq_iff)

lemma member_of_map:
  "member_of (map (map_prod id f) kvs) k = map_option f (member_of kvs k)"
proof -
  have "map_of (map (map_prod id f) xs) k = map_option f (map_of xs k)" for xs
    by (induction xs) auto
  then show ?thesis by (simp add: member_of_def rev_map)
qed

lemma to_go_string: "to_go v = GString s \<longleftrightarrow> v = JString s"
  by (cases v) auto

lemma unmarshal_msgData_object:
  "unmarshal_msgData (Some (JObject kvs)) =
     (if numbers_ok (JObject kvs) then Inr (msgData_of kvs) else Inl UnmarshalTypeError)"
  by (simp add: unmarshal_msgData_def store_members_member_of member_of_map msgData_of_def
      fun_eq_iff)




lemma typed_envelope_is_object:
  assumes "unmarshal_eventData message = Inr e" and "Type e \<noteq> []"
  shows "\<exists>kvs. message = Some (JObject kvs)"
proof (cases message)
  case None
  with assms show ?thesis by (simp add: unmarshal_eventData_def)
next
  case (Some j)
  with assms show ?thesis by (cases j) (auto simp: unmarshal_eventData_def)
qed

subsection \<open>Chat messages\<close>

lemma transformedMsg_other:
  "k \<notin> {''senderId'', ''conversationId'', ''content''} \<Longrightarrow> transformedMsg msgData k = msgData k"
  by (simp add: transformedMsg_def Let_def split: option.splits)

lemma transformedMsg_senderId:
  "transformedMsg msgData ''senderId'' =
     (case msgData ''source'' of None \<Rightarrow> msgData ''senderId'' | Some v \<Rightarrow> Some v)"
  by (simp add: transformedMsg_def Let_def split: option.splits)

lemma transformedMsg_conversationId:
  "transformedMsg msgData ''conversationId'' =
     (case msgData ''conversationID'' of None \<Rightarrow> msgData ''conversationId'' | Some v \<Rightarrow> Some v)"
  by (simp add: transformedMsg_def Let_def split: option.splits)

lemma transformedMsg_content:
  "transformedMsg msgData ''content'' =
     (case msgData ''message'' of None \<Rightarrow> msgData ''content'' | Some v \<Rightarrow> Some v)"
  by (simp add: transformedMsg_def Let_def split: option.splits)

lemma listen_frame_md_undecodable_map:
  assumes "unmarshal_eventData m = Inr e" and "Type e = ''message''"
    and "unmarshal_msgData m = Inl err"
  shows "listen_frame_md c m = []"
  using assms by (simp add: listen_frame_md_def)

text \<open>
  Claim C1, as the code has it, in the copy of \<open>listen\<close> that follows the README text
  in \<open>README.md\<close>. A frame whose envelope decodes with the type \<open>message\<close> is an object.
  When it decodes again as a map (it does unless a number in it is outside the
  \<open>float64\<close> range, and then the frame is dropped), the transformed map has every field
  of that map, except that \<open>senderId\<close>, \<open>conversationId\<close> and \<open>content\<close> hold the
  values of \<open>source\<close>, \<open>conversationID\<close> and \<open>message\<close> when those are present. The
  handlers under \<open>message.create\<close> are started with it, in their order, and then, when
  its \<open>conversationId\<close> is a string, those under \<open>conversation:<id>:message.create\<close>,
  with the same map; nothing else is started.
\<close>

theorem message_frame_routing:
  assumes "unmarshal_eventData message = Inr e" and "Type e = ''message''"
  shows "(\<exists>kvs. message = Some (JObject kvs)) \<and>
     (\<forall>kvs. message = Some (JObject kvs) \<longrightarrow>
        (\<not> numbers_ok (JObject kvs) \<longrightarrow> listen_frame_md c message = []) \<and>
        (numbers_ok (JObject kvs) \<longrightarrow>
           unmarshal_msgData message = Inr (msgData_of kvs) \<and>
           (\<forall>k. k \<notin> {''senderId'', ''conversationId'', ''content''} \<longrightarrow>
                transformedMsg (msgData_of kvs) k = msgData_of kvs k) \<and>
           transformedMsg (msgData_of kvs) ''senderId'' =
             (case msgData_of kvs ''source'' of None \<Rightarrow> msgData_of kvs ''senderId''
              | Some v \<Rightarrow> Some v) \<and>
           transformedMsg (msgData_of kvs) ''conversationId'' =
             (case msgData_of kvs ''conversationID'' of None \<Rightarrow> msgData_of kvs ''conversationId''
              | Some v \<Rightarrow> Some v) \<and>
           transformedMsg (msgData_of kvs) ''content'' =
             (case msgData_of kvs ''message'' of None \<Rightarrow> msgData_of kvs ''content''
              | Some v \<Rightarrow> Some v) \<and>
           listen_frame_md c message =
             map (\<lambda>h. GoHandler h (GMap (transformedMsg (msgData_of kvs))))
               (handlers_for c ''message.create'') @
             (case transformedMsg (msgData_of kvs) ''conversationId'' of
                Some (GString convID) \<Rightarrow>
                  map (\<lambda>h. GoHandler h (GMap (transformedMsg (msgData_of kvs))))
                    (handlers_for c (''conversation:'' @ convID @ '':message.create''))
              | _ \<Rightarrow> [])))"
proof (intro conjI allI impI)
  show "\<exists>kvs. message = Some (JObject kvs)"
    using assms typed_envelope_is_object [of message e] by auto
next
  fix kvs
  assume m: "message = Some (JObject kvs)" and "\<not> numbers_ok (JObject kvs)"
  then have "unmarshal_msgData message = Inl UnmarshalTypeError"
    unfolding m unmarshal_msgData_object by simp
  with assms show "listen_frame_md c message = []"
    by (rule listen_frame_md_undecodable_map)
next
  fix kvs
  assume m: "message = Some (JObject kvs)" and ok: "numbers_ok (JObject kvs)"
  show d: "unmarshal_msgData message = Inr (msgData_of kvs)"
    unfolding m unmarshal_msgData_object using ok by simp
  show "listen_frame_md c message =
        map (\<lambda>h. GoHandler h (GMap (transformedMsg (msgData_of kvs))))
          (handlers_for c ''message.create'') @
        (case transformedMsg (msgData_of kvs) ''conversationId'' of
           Some (GString convID) \<Rightarrow>
             map (\<lambda>h. GoHandler h (GMap (transformedMsg (msgData_of kvs))))
               (handlers_for c (''conversation:'' @ convID @ '':message.create''))
         | _ \<Rightarrow> [])"
    unfolding listen_frame_md_message [OF assms d]
    by (simp add: Emit_def split: option.splits gval.splits)
next
  fix kvs k
  assume "k \<notin> {''senderId'', ''conversationId'', ''content''}"
  then show "transformedMsg (msgData_of kvs) k = msgData_of kvs k"
    by (rule transformedMsg_other)
next
  fix kvs
  show "transformedMsg (msgData_of kvs) ''senderId'' =
      (case msgData_of kvs ''source'' of None \<Rightarrow> msgData_of kvs ''senderId'' | Some v \<Rightarrow> Some v)"
    by (rule transformedMsg_senderId)
  show "transformedMsg (msgData_of kvs) ''conversationId'' =
      (case msgData_of kvs ''conversationID'' of None \<Rightarrow> msgData_of kvs ''conversationId''
       | Some v \<Rightarrow> Some v)"
    by (rule transformedMsg_conversationId)
  show "transformedMsg (msgData_of kvs) ''content'' =
      (case msgData_of kvs ''message'' of None \<Rightarrow> msgData_of kvs ''content'' | Some v \<Rightarrow> Some v)"
    by (rule transformedMsg_content)
qed

lemma message_frame_numbers: "numbers_ok frame_chat" "numbers_ok frame_chat_number"
  by (simp_all add: frame_chat_def frame_chat_number_def float64_ok_def)

theorem message_frame_routing_witness:
  "unmarshal_eventData (Some frame_chat) = Inr \<lparr>Type = ''message'', Data = GNil\<rparr>
   \<and> unmarshal_msgData (Some frame_chat) = Inr chat_msgData
   \<and> transformedMsg chat_msgData = chat_transformed
   \<and> listen_frame_md
         (On ''conversation:c1:message.create'' 2 (On ''message.create'' 1 client_new))
         (Some frame_chat) =
       [GoHandler 1 (GMap chat_transformed), GoHandler 2 (GMap chat_transformed)]
   \<and> chat_transformed ''senderId'' = Some (GString ''u1'')
   \<and> chat_transformed ''conversationId'' = Some (GString ''c1'')
   \<and> chat_transformed ''content'' = Some (GString ''hi'')
   \<and> chat_transformed ''source'' = Some (GString ''u1'')
   \<and> chat_transformed ''conversationID'' = Some (GString ''c1'')
   \<and> chat_transformed ''message'' = Some (GString ''hi'')
   \<and> chat_transformed ''type'' = Some (GString ''message'')"
proof -
  let ?c = "On ''conversation:c1:message.create'' 2 (On ''message.create'' 1 client_new)"
  let ?kvs = "[(''type'', JString ''message''), (''source'', JString ''u1''),
               (''conversationID'', JString ''c1''), (''message'', JString ''hi'')]"
  have ty: "Type \<lparr>Type = ''message'', Data = GNil\<rparr> = ''message''" by simp
  have k: "Some frame_chat = Some (JObject ?kvs)" by (simp add: frame_chat_def)
  have ok: "numbers_ok (JObject ?kvs)" using message_frame_numbers(1) by (simp add: frame_chat_def)
  note r = message_frame_routing [OF envelope_chat ty, of ?c, THEN conjunct2, rule_format, OF k]
  note r2 = r [THEN conjunct2, rule_format, OF ok]
  have md: "msgData_of ?kvs = chat_msgData"
    using r2 [THEN conjunct1] msgData_chat by simp
  have h0: "handlers_for client_new event = []" for event
    by (simp add: handlers_for_def)
  have "listen_frame_md ?c (Some frame_chat) =
       [GoHandler 1 (GMap chat_transformed), GoHandler 2 (GMap chat_transformed)]"
    using r2 [THEN conjunct2, THEN conjunct2, THEN conjunct2, THEN conjunct2, THEN conjunct2]
    unfolding md transformed_chat
    by (simp add: chat_transformed_id handlers_for_On h0)
  then show ?thesis
    using envelope_chat msgData_chat transformed_chat
    by (simp add: chat_transformed_def chat_msgData_def)
qed

text \<open>
  The claim as it is written fails in that copy on two frames. In
  \<^verbatim>\<open>{"type":"message","conversationID":5}\<close> the transformed map has a
  \<open>conversationId\<close>, the number, and only the \<open>message.create\<close> handler is started. In
  \<^verbatim>\<open>{"type":"message","source":"u1","senderId":"u2"}\<close> the frame's own \<open>senderId\<close> is
  not kept: the transformed map has that of \<open>source\<close>.
\<close>

theorem message_frame_number_and_overwrite:
  "listen_frame_md
     (On ''conversation:5:message.create'' 2 (On ''message.create'' 1 client_new))
     (Some frame_chat_number) = [GoHandler 1 (GMap number_transformed)]
   \<and> number_transformed ''conversationId'' = Some (GFloat 5)
   \<and> unmarshal_msgData (Some frame_chat_own_sender) =
       Inr [''type'' \<mapsto> GString ''message'', ''source'' \<mapsto> GString ''u1'',
            ''senderId'' \<mapsto> GString ''u2'']
   \<and> listen_frame_md (On ''message.create'' 1 client_new) (Some frame_chat_own_sender) =
       [GoHandler 1 (GMap own_sender_transformed)]
   \<and> own_sender_transformed ''senderId'' = Some (GString ''u1'')"
  by (simp add: frame_chat_number_def frame_chat_own_sender_def number_transformed_def
      own_sender_transformed_def listen_frame_md_def decode_defs transformedMsg_def Let_def
      Emit_On)

text \<open>
  The older copy, \<open>websocket_client.go\<close>, has no branch for chat messages: it starts
  the handlers registered under \<open>message\<close> with the envelope's data, and none of those
  under \<open>message.create\<close>.
\<close>

lemma older_copy_chat_frame:
  "listen_frame_ws
     (On ''conversation:c1:message.create'' 2 (On ''message.create'' 1 (On ''message'' 3 client_new)))
     (Some frame_chat) = [GoHandler 3 GNil]"
  by (simp add: listen_frame_ws_generic [OF envelope_chat] Emit_On)

subsection \<open>The conversation key\<close>

lemma msgData_of_string:
  "msgData_of kvs k = Some (GString s) \<longleftrightarrow> member_of kvs k = Some (JString s)"
  by (cases "member_of kvs k") (simp_all add: msgData_of_def to_go_string)

lemma conversationId_string:
  "transformedMsg (msgData_of kvs) ''conversationId'' = Some (GString s) \<longleftrightarrow>
     (case member_of kvs ''conversationID'' of
        Some v \<Rightarrow> v = JString s
      | None \<Rightarrow> member_of kvs ''conversationId'' = Some (JString s))"
proof (cases "member_of kvs ''conversationID''")
  case None
  then have "msgData_of kvs ''conversationID'' = None" by (simp add: msgData_of_def)
  with None show ?thesis
    by (simp add: transformedMsg_conversationId msgData_of_string)
next
  case (Some v)
  then have "msgData_of kvs ''conversationID'' = Some (to_go v)" by (simp add: msgData_of_def)
  with Some show ?thesis
    by (simp add: transformedMsg_conversationId to_go_string)
qed

lemma conversation_case:
  "(case transformedMsg (msgData_of kvs) ''conversationId'' of
      Some (GString convID) \<Rightarrow> f convID
    | _ \<Rightarrow> []) =
   (case member_of kvs ''conversationID'' of
      Some (JString convID) \<Rightarrow> f convID
    | Some _ \<Rightarrow> []
    | None \<Rightarrow>
        (case member_of kvs ''conversationId'' of
           Some (JString convID) \<Rightarrow> f convID
         | _ \<Rightarrow> []))"
proof (cases "\<exists>s. transformedMsg (msgData_of kvs) ''conversationId'' = Some (GString s)")
  case True
  then obtain s where s: "transformedMsg (msgData_of kvs) ''conversationId'' = Some (GString s)"
    by blast
  then have "case member_of kvs ''conversationID'' of
        Some v \<Rightarrow> v = JString s
      | None \<Rightarrow> member_of kvs ''conversationId'' = Some (JString s)"
    by (simp only: conversationId_string)
  with s show ?thesis by (simp split: option.splits)
next
  case False
  then have n: "(case transformedMsg (msgData_of kvs) ''conversationId'' of
      Some (GString convID) \<Rightarrow> f convID | _ \<Rightarrow> []) = []"
    by (simp split: option.splits gval.splits)
  from False have "\<forall>s. \<not> (case member_of kvs ''conversationID'' of
        Some v \<Rightarrow> v = JString s
      | None \<Rightarrow> member_of kvs ''conversationId'' = Some (JString s))"
    by (simp only: conversationId_string) simp
  then have "(case member_of kvs ''conversationID'' of
      Some (JString convID) \<Rightarrow> f convID
    | Some _ \<Rightarrow> []
    | None \<Rightarrow>
        (case member_of kvs ''conversationId'' of
           Some (JString convID) \<Rightarrow> f convID
         | _ \<Rightarrow> [])) = []"
    by (auto split: option.splits json.splits)
  with n show ?thesis by simp
qed

text \<open>
  Claim C10, as the code has it, in the copy of \<open>listen\<close> in \<open>README.md\<close>. For a
  frame of type \<open>message\<close> that decodes as a map, the handlers under
  \<open>message.create\<close> are started, and then those under
  \<open>conversation:<id>:message.create\<close> exactly when the transformed map's
  \<open>conversationId\<close> is a string: when the frame's \<open>conversationID\<close> is the string
  \<open><id>\<close>, or when the frame has no \<open>conversationID\<close> and its own \<open>conversationId\<close>
  is the string \<open><id>\<close>. When \<open>conversationID\<close> is present with a value of another
  JSON type, only the handlers under \<open>message.create\<close> are started.
\<close>

theorem conversation_dispatch_condition:
  assumes "unmarshal_eventData (Some (JObject kvs)) = Inr e" and "Type e = ''message''"
    and "numbers_ok (JObject kvs)"
  shows "listen_frame_md c (Some (JObject kvs)) =
     map (\<lambda>h. GoHandler h (GMap (transformedMsg (msgData_of kvs))))
       (handlers_for c ''message.create'') @
     (case member_of kvs ''conversationID'' of
        Some (JString convID) \<Rightarrow>
          map (\<lambda>h. GoHandler h (GMap (transformedMsg (msgData_of kvs))))
            (handlers_for c (''conversation:'' @ convID @ '':message.create''))
      | Some _ \<Rightarrow> []
      | None \<Rightarrow>
          (case member_of kvs ''conversationId'' of
             Some (JString convID) \<Rightarrow>
               map (\<lambda>h. GoHandler h (GMap (transformedMsg (msgData_of kvs))))
                 (handlers_for c (''conversation:'' @ convID @ '':message.create''))
           | _ \<Rightarrow> []))"
proof -
  have d: "unmarshal_msgData (Some (JObject kvs)) = Inr (msgData_of kvs)"
    unfolding unmarshal_msgData_object using assms(3) by simp
  have "listen_frame_md c (Some (JObject kvs)) =
     map (\<lambda>h. GoHandler h (GMap (transformedMsg (msgData_of kvs))))
       (handlers_for c ''message.create'') @
     (case transformedMsg (msgData_of kvs) ''conversationId'' of
        Some (GString convID) \<Rightarrow>
          map (\<lambda>h. GoHandler h (GMap (transformedMsg (msgData_of kvs))))
            (handlers_for c (''conversation:'' @ convID @ '':message.create''))
      | _ \<Rightarrow> [])"
    unfolding listen_frame_md_message [OF assms(1,2) d]
    by (simp add: Emit_def split: option.splits gval.splits)
  then show ?thesis
    unfolding conversation_case .
qed

lemma envelope_chat_number:
  "unmarshal_eventData (Some frame_chat_number) = Inr \<lparr>Type = ''message'', Data = GNil\<rparr>"
  by (simp add: frame_chat_number_def decode_defs)

lemma transformed_chat_number:
  "transformedMsg
     (msgData_of [(''type'', JString ''message''), (''conversationID'', JNumber 5)]) =
   number_transformed"
  by (simp add: transformedMsg_def msgData_of_def member_of_def number_transformed_def Let_def
      fun_eq_iff)

lemma transformed_chat_members:
  "transformedMsg
     (msgData_of [(''type'', JString ''message''), (''source'', JString ''u1''),
                  (''conversationID'', JString ''c1''), (''message'', JString ''hi'')]) =
   chat_transformed"
  by (simp add: transformedMsg_def msgData_of_def member_of_def chat_transformed_def
      chat_msgData_def Let_def fun_eq_iff)

theorem conversation_dispatch_condition_witness:
  "unmarshal_eventData (Some frame_chat) = Inr \<lparr>Type = ''message'', Data = GNil\<rparr>
   \<and> numbers_ok frame_chat
   \<and> listen_frame_md
         (On ''conversation:5:message.create'' 3
            (On ''conversation:c1:message.create'' 2 (On ''message.create'' 1 client_new)))
         (Some frame_chat) =
       [GoHandler 1 (GMap chat_transformed), GoHandler 2 (GMap chat_transformed)]
   \<and> unmarshal_eventData (Some frame_chat_number) = Inr \<lparr>Type = ''message'', Data = GNil\<rparr>
   \<and> numbers_ok frame_chat_number
   \<and> listen_frame_md
         (On ''conversation:5:message.create'' 3
            (On ''conversation:c1:message.create'' 2 (On ''message.create'' 1 client_new)))
         (Some frame_chat_number) =
       [GoHandler 1 (GMap number_transformed)]"
proof -
  let ?c = "On ''conversation:5:message.create'' 3
              (On ''conversation:c1:message.create'' 2 (On ''message.create'' 1 client_new))"
  have ty: "Type \<lparr>Type = ''message'', Data = GNil\<rparr> = ''message''" by simp
  have h0: "handlers_for client_new event = []" for event
    by (simp add: handlers_for_def)
  have a: "listen_frame_md ?c (Some frame_chat) =
       [GoHandler 1 (GMap chat_transformed), GoHandler 2 (GMap chat_transformed)]"
    using conversation_dispatch_condition
      [OF envelope_chat [unfolded frame_chat_def] ty message_frame_numbers(1) [unfolded frame_chat_def],
       of ?c]
    unfolding transformed_chat_members
    by (simp add: frame_chat_def member_of_def handlers_for_On h0)
  have b: "listen_frame_md ?c (Some frame_chat_number) = [GoHandler 1 (GMap number_transformed)]"
    using conversation_dispatch_condition
      [OF envelope_chat_number [unfolded frame_chat_number_def] ty
          message_frame_numbers(2) [unfolded frame_chat_number_def], of ?c]
    unfolding transformed_chat_number
    by (simp add: frame_chat_number_def member_of_def handlers_for_On h0)
  from a b envelope_chat envelope_chat_number message_frame_numbers show ?thesis by simp
qed

text \<open>
  The claim as it is written fails on a frame that has no \<open>conversationID\<close> and a
  \<open>conversationId\<close> of its own, \<^verbatim>\<open>{"type":"message","conversationId":"c9"}\<close>: the
  handler under \<open>conversation:c9:message.create\<close> is started.
\<close>

theorem conversation_dispatch_own_conversationId:
  "frame_chat_own_id = JObject [(''type'', JString ''message''), (''conversationId'', JString ''c9'')]
   \<and> member_of [(''type'', JString ''message''), (''conversationId'', JString ''c9'')]
        ''conversationID'' = None
   \<and> listen_frame_md
         (On ''conversation:c9:message.create'' 2 (On ''message.create'' 1 client_new))
         (Some frame_chat_own_id) =
       [GoHandler 1 (GMap own_id_transformed), GoHandler 2 (GMap own_id_transformed)]"
  by (simp add: frame_chat_own_id_def own_id_transformed_def member_of_def listen_frame_md_def
      decode_defs transformedMsg_def Let_def Emit_On)

subsection \<open>Confirmations and heartbeats\<close>

text \<open>
  Claim C5 at the input where the code departs from it: in \<open>websocket_client.go\<close> a
  \<open>subscribed\<close> frame and a \<open>pong\<close> frame start the handlers registered under those
  names, with the envelope's data (nil here).
\<close>

theorem subscribed_and_pong_dispatched:
  "listen_frame_ws (On ''pong'' 2 (On ''subscribed'' 1 client_new)) (Some frame_subscribed) =
     [GoHandler 1 GNil]
   \<and> listen_frame_ws (On ''pong'' 2 (On ''subscribed'' 1 client_new)) (Some frame_pong) =
     [GoHandler 2 GNil]"
  by (simp add: frame_subscribed_def frame_pong_def listen_frame_ws_def decode_defs Emit_On)

text \<open>
  The copy in \<open>README.md\<close> does what the claim says: a \<open>subscribed\<close> frame is logged, a
  \<open>pong\<close> frame does nothing, and neither starts a handler, whatever is registered.
\<close>

lemma newer_copy_subscribed_pong:
  assumes "unmarshal_eventData m = Inr e"
  shows "(Type e = ''subscribed'' \<longrightarrow> listen_frame_md c m = [Logged ''Subscribed to events''])
       \<and> (Type e = ''pong'' \<longrightarrow> listen_frame_md c m = [])
       \<and> (Type e = ''subscribed'' \<or> Type e = ''pong'' \<longrightarrow> started (listen_frame_md c m) = [])"
  using assms by (auto simp: listen_frame_md_def started_def)

lemma newer_copy_subscribed_pong_frames:
  "listen_frame_md (On ''pong'' 2 (On ''subscribed'' 1 client_new)) (Some frame_subscribed) =
     [Logged ''Subscribed to events'']
   \<and> listen_frame_md (On ''pong'' 2 (On ''subscribed'' 1 client_new)) (Some frame_pong) = []"
  by (simp add: frame_subscribed_def frame_pong_def listen_frame_md_def decode_defs)

subsection \<open>Frames that do not decode\<close>













section \<open>Handlers in their goroutines\<close>

lemma started_append: "started (es1 @ es2) = started es1 @ started es2"
  by (simp add: started_def)

lemma started_Emit: "started (Emit event data c) = map (\<lambda>h. (h, data)) (handlers_for c event)"
  by (simp add: started_def Emit_def) (induction "handlers_for c event", simp_all)

lemma started_Nil: "started [] = []"
  by (simp add: started_def)

lemma started_Emit_registered:
  "(h, d) \<in> set (started (Emit event data c)) \<Longrightarrow> \<exists>event. h \<in> set (handlers_for c event)"
  by (auto simp: started_Emit)

lemma started_ws_registered:
  assumes "(h, d) \<in> set (started (listen_frame_ws c m))"
  shows "\<exists>event. h \<in> set (handlers_for c event)"
  using assms
  by (auto simp: listen_frame_ws_def started_Emit split: sum.splits) (simp add: started_def)

lemma started_md_registered:
  assumes "(h, d) \<in> set (started (listen_frame_md c m))"
  shows "\<exists>event. h \<in> set (handlers_for c event)"
proof (cases "unmarshal_eventData m")
  case (Inl err)
  with assms show ?thesis by (simp add: listen_frame_md_def started_def)
next
  case (Inr e)
  show ?thesis
  proof (cases "Type e = ''message''")
    case True
    show ?thesis
    proof (cases "unmarshal_msgData m")
      case (Inl err)
      with assms Inr True show ?thesis
        by (simp add: listen_frame_md_undecodable_map started_def)
    next
      case (Inr msgData)
      let ?t = "GMap (transformedMsg msgData)"
      from assms have "(h, d) \<in> set (started (Emit ''message.create'' ?t c)) \<or>
          (\<exists>i. (h, d) \<in> set (started (Emit (''conversation:'' @ i @ '':message.create'') ?t c)))"
        unfolding listen_frame_md_message [OF \<open>unmarshal_eventData m = Inr e\<close> True Inr]
        by (auto simp: started_append started_Nil split: option.splits gval.splits)
      then show ?thesis by (auto dest: started_Emit_registered)
    qed
  next
    case False
    show ?thesis
    proof (cases "Type e = ''subscribed'' \<or> Type e = ''pong''")
      case True
      with assms Inr newer_copy_subscribed_pong [OF Inr, of c] show ?thesis by auto
    next
      case False
      with \<open>Type e \<noteq> ''message''\<close> have g: "Type e \<notin> {''message'', ''subscribed'', ''pong''}"
        by simp
      from assms show ?thesis
        unfolding listen_frame_md_generic [OF Inr g] by (rule started_Emit_registered)
    qed
  qed
qed

text \<open>
  When no handler that can be started panics, the process never crashes: the handlers
  of a frame are registered ones, and finished handlers leave the others as they were.
\<close>

lemma no_panic_no_crash:
  assumes reg: "\<And>h d m. (h, d) \<in> set (started (frame c m)) \<Longrightarrow> ends h d \<noteq> Panics"
    and steps: "rtranclp (step ends frame c) (Running rs gs) p"
    and gs: "\<forall>g \<in> set gs. ends (fst g) (snd g) \<noteq> Panics"
  shows "p \<noteq> Crashed \<and> (\<forall>rs' gs'. p = Running rs' gs' \<longrightarrow> (\<forall>g \<in> set gs'. ends (fst g) (snd g) \<noteq> Panics))"
  using steps
proof (induction rule: rtranclp_induct)
  case base
  with gs show ?case by simp
next
  case (step p q)
  from step.hyps(2) step.IH show ?case
  proof (cases rule: step.cases)
    case (read_frame m rs0 gs0)
    with step.IH reg show ?thesis by auto
  next
    case (handler_returns h d rs0 gs1 gs2)
    with step.IH show ?thesis by auto
  next
    case (handler_panics h d rs0 gs1 gs2)
    with step.IH show ?thesis by auto
  qed
qed

text \<open>The loop can take every frame while no handler has finished.\<close>

lemma reads_never_wait:
  "rtranclp (step ends frame c) (Running (map Message ms @ rs) gs)
     (Running rs (gs @ concat (map (\<lambda>m. started (frame c m)) ms)))"
proof (induction ms arbitrary: gs)
  case Nil
  show ?case by simp
next
  case (Cons m ms)
  have "step ends frame c (Running (Message m # map Message ms @ rs) gs)
      (Running (map Message ms @ rs) (gs @ started (frame c m)))"
    by (rule step.read_frame)
  with Cons.IH [of "gs @ started (frame c m)"] show ?case
    by (simp add: converse_rtranclp_into_rtranclp)
qed

lemma crash_is_a_panic:
  "step ends frame c p Crashed \<longleftrightarrow>
     (\<exists>rs gs1 h d gs2. p = Running rs (gs1 @ (h, d) # gs2) \<and> ends h d = Panics)"
proof
  assume "step ends frame c p Crashed"
  then show "\<exists>rs gs1 h d gs2. p = Running rs (gs1 @ (h, d) # gs2) \<and> ends h d = Panics"
    by (cases rule: step.cases) auto
next
  assume "\<exists>rs gs1 h d gs2. p = Running rs (gs1 @ (h, d) # gs2) \<and> ends h d = Panics"
  then show "step ends frame c p Crashed"
    by (auto intro: step.handler_panics)
qed

lemma crashed_is_final: "\<not> step ends frame c Crashed p"
proof
  assume "step ends frame c Crashed p"
  then show False by (cases rule: step.cases)
qed

text \<open>
  Claim C3, as the code has it, in both copies of \<open>listen\<close>. The router starts every
  handler in a goroutine of its own and never waits for one: the loop can take all its
  frames while every handler started so far is still running or blocked, and a handler
  that returns leaves the loop and the other handlers as they were. Nothing of a
  handler is collected. A panic is not contained, since no \<open>recover\<close> is deferred: the
  process crashes exactly by a step of a panicking handler, and then nothing runs any
  more, the read loop included. When no registered handler panics, the process never
  crashes.
\<close>

theorem handlers_not_awaited_nor_recovered:
  "rtranclp (step ends frame c) (Running (map Message ms @ rs) gs)
     (Running rs (gs @ concat (map (\<lambda>m. started (frame c m)) ms)))
   \<and> (ends h d = Returns \<longrightarrow>
        step ends frame c (Running rs (gs1 @ (h, d) # gs2)) (Running rs (gs1 @ gs2)))
   \<and> (step ends frame c p Crashed \<longleftrightarrow>
        (\<exists>rs' gs1' h' d' gs2'. p = Running rs' (gs1' @ (h', d') # gs2') \<and> ends h' d' = Panics))
   \<and> \<not> step ends frame c Crashed q
   \<and> ((frame = listen_frame_ws \<or> frame = listen_frame_md) \<and>
        (\<forall>event h d. h \<in> set (handlers_for c event) \<longrightarrow> ends h d \<noteq> Panics) \<and>
        rtranclp (step ends frame c) (Running rs0 []) p0 \<longrightarrow>
        p0 \<noteq> Crashed)"
proof (intro conjI impI)
  show "rtranclp (step ends frame c) (Running (map Message ms @ rs) gs)
     (Running rs (gs @ concat (map (\<lambda>m. started (frame c m)) ms)))"
    by (rule reads_never_wait)
  show "step ends frame c (Running rs (gs1 @ (h, d) # gs2)) (Running rs (gs1 @ gs2))"
    if "ends h d = Returns"
    using that by (rule step.handler_returns)
  show "step ends frame c p Crashed \<longleftrightarrow>
        (\<exists>rs' gs1' h' d' gs2'. p = Running rs' (gs1' @ (h', d') # gs2') \<and> ends h' d' = Panics)"
    by (rule crash_is_a_panic)
  show "\<not> step ends frame c Crashed q"
    by (rule crashed_is_final)
  show "p0 \<noteq> Crashed"
    if a: "(frame = listen_frame_ws \<or> frame = listen_frame_md) \<and>
        (\<forall>event h d. h \<in> set (handlers_for c event) \<longrightarrow> ends h d \<noteq> Panics) \<and>
        rtranclp (step ends frame c) (Running rs0 []) p0"
  proof -
    have reg: "ends h d \<noteq> Panics" if "(h, d) \<in> set (started (frame c m))" for h d m
    proof -
      from a have "frame = listen_frame_ws \<or> frame = listen_frame_md" by blast
      then have "\<exists>event. h \<in> set (handlers_for c event)"
      proof
        assume "frame = listen_frame_ws"
        with that show ?thesis using started_ws_registered [of h d c m] by simp
      next
        assume "frame = listen_frame_md"
        with that show ?thesis using started_md_registered [of h d c m] by simp
      qed
      with a show ?thesis by blast
    qed
    from a have r: "rtranclp (step ends frame c) (Running rs0 []) p0" by blast
    from no_panic_no_crash [of frame c ends rs0 "[]" p0, OF reg r] show ?thesis by simp
  qed
qed

lemma started_foo_ws:
  "started (listen_frame_ws (On ''foo'' 2 (On ''foo'' 1 client_new)) (Some frame_foo)) =
     [(1, foo_data), (2, foo_data)]"
  by (simp add: listen_frame_ws_generic [OF envelope_foo] Emit_On started_def)

lemma started_foo_md:
  "started (listen_frame_md (On ''foo'' 2 (On ''foo'' 1 client_new)) (Some frame_foo)) =
     [(1, foo_data), (2, foo_data)]"
  using listen_frame_md_generic [OF envelope_foo, of "On ''foo'' 2 (On ''foo'' 1 client_new)"]
  by (simp add: Emit_On started_def)

theorem handlers_not_awaited_nor_recovered_witness:
  "rtranclp (step all_return listen_frame_md (On ''foo'' 2 (On ''foo'' 1 client_new)))
     (Running [Message (Some frame_foo), Message (Some frame_foo)] [])
     (Running [] [(1, foo_data), (2, foo_data), (1, foo_data), (2, foo_data)])
   \<and> all_return 2 foo_data = Returns
   \<and> step all_return listen_frame_md (On ''foo'' 2 (On ''foo'' 1 client_new))
        (Running [] [(1, foo_data), (2, foo_data), (1, foo_data), (2, foo_data)])
        (Running [] [(1, foo_data), (1, foo_data), (2, foo_data)])
   \<and> Running [] [(1, foo_data), (2, foo_data), (1, foo_data), (2, foo_data)] \<noteq> (Crashed :: nat process)"
proof -
  let ?c = "On ''foo'' 2 (On ''foo'' 1 client_new)"
  let ?p = "Running [] [(1, foo_data), (2, foo_data), (1, foo_data), (2, foo_data)] :: nat process"
  note t = handlers_not_awaited_nor_recovered
    [where ends = all_return and frame = listen_frame_md and c = ?c
       and ms = "[Some frame_foo, Some frame_foo]" and rs = "[]" and gs = "[]"
       and h = 2 and d = foo_data and ?gs1.0 = "[(1, foo_data)]"
       and ?gs2.0 = "[(1, foo_data), (2, foo_data)]" and ?rs0.0 = "[Message (Some frame_foo), Message (Some frame_foo)]"
       and ?p0.0 = ?p and p = ?p and q = ?p]
  have path: "rtranclp (step all_return listen_frame_md ?c)
     (Running [Message (Some frame_foo), Message (Some frame_foo)] []) ?p"
    using t [THEN conjunct1]
    by (simp only: list.map concat.simps started_foo_md append.simps append_Nil2)
  have ret: "all_return 2 foo_data = Returns" by (simp add: all_return_def)
  have st: "step all_return listen_frame_md ?c ?p (Running [] [(1, foo_data), (1, foo_data), (2, foo_data)])"
    using t [THEN conjunct2, THEN conjunct1] ret by simp
  have quiet: "\<forall>event h d. h \<in> set (handlers_for ?c event) \<longrightarrow> all_return h d \<noteq> Panics"
    by (simp add: all_return_def)
  have "?p \<noteq> Crashed"
    using t [THEN conjunct2, THEN conjunct2, THEN conjunct2, THEN conjunct2] quiet path by blast
  with path ret st show ?thesis by blast
qed

text \<open>
  The claim as it is written fails when a handler panics. With two handlers under
  \<open>foo\<close>, of which the first panics, and two \<open>foo\<close> frames, the loop takes the first
  frame and starts both handlers; the first handler's step crashes the process, with
  the second frame unread and the second handler gone with it. This holds in both
  copies of \<open>listen\<close>.
\<close>

theorem handler_panic_crashes_process:
  "first_panics 1 foo_data = Panics
   \<and> step first_panics listen_frame_ws (On ''foo'' 2 (On ''foo'' 1 client_new))
        (Running [Message (Some frame_foo), Message (Some frame_foo)] [])
        (Running [Message (Some frame_foo)] [(1, foo_data), (2, foo_data)])
   \<and> step first_panics listen_frame_ws (On ''foo'' 2 (On ''foo'' 1 client_new))
        (Running [Message (Some frame_foo)] [(1, foo_data), (2, foo_data)]) Crashed
   \<and> step first_panics listen_frame_md (On ''foo'' 2 (On ''foo'' 1 client_new))
        (Running [Message (Some frame_foo), Message (Some frame_foo)] [])
        (Running [Message (Some frame_foo)] [(1, foo_data), (2, foo_data)])
   \<and> step first_panics listen_frame_md (On ''foo'' 2 (On ''foo'' 1 client_new))
        (Running [Message (Some frame_foo)] [(1, foo_data), (2, foo_data)]) Crashed"
proof -
  let ?c = "On ''foo'' 2 (On ''foo'' 1 client_new)"
  have p: "first_panics 1 foo_data = Panics" by (simp add: first_panics_def)
  have r_ws: "step first_panics listen_frame_ws ?c
        (Running [Message (Some frame_foo), Message (Some frame_foo)] [])
        (Running [Message (Some frame_foo)] ([] @ started (listen_frame_ws ?c (Some frame_foo))))"
    by (rule step.read_frame)
  have r_md: "step first_panics listen_frame_md ?c
        (Running [Message (Some frame_foo), Message (Some frame_foo)] [])
        (Running [Message (Some frame_foo)] ([] @ started (listen_frame_md ?c (Some frame_foo))))"
    by (rule step.read_frame)
  have c_ws: "step first_panics listen_frame_ws ?c
        (Running [Message (Some frame_foo)] ([] @ (1, foo_data) # [(2, foo_data)])) Crashed"
    using p by (rule step.handler_panics)
  have c_md: "step first_panics listen_frame_md ?c
        (Running [Message (Some frame_foo)] ([] @ (1, foo_data) # [(2, foo_data)])) Crashed"
    using p by (rule step.handler_panics)
  from p r_ws r_md c_ws c_md show ?thesis
    by (simp only: started_foo_ws started_foo_md append.simps simp_thms)
qed

end
